theory Spec2Isabelle
  imports Complex_Main "HOL-Library.Multiset" "HOL-Library.Log_Nat"
begin

section \<open>Conventions of the embedding\<close>

text \<open>
  The two notebooks (the LSTM one and \<^verbatim>\<open>CNN/PyTorch model.ipynb\<close>) share the class
  \<^verbatim>\<open>Trainer\<close> and the function \<^verbatim>\<open>get_dataset\<close> line for line; they differ in the
  network, in a reshape of the inputs and in the names of the two trees.

  Python integers are \<open>int\<close> or \<open>nat\<close>. A Python float is a double: a real number, and the
  arithmetic of the training loop and of \<^verbatim>\<open>get_dataset\<close> rounds every result to the nearest
  double; the quotient of \<^verbatim>\<open>score\<close> is the exact one. Infinities and NaN are not values of
  the model, but for the NaN that \<^verbatim>\<open>score\<close> returns on an empty \<open>Y\<close>. What belongs to PyTorch, NumPy
  and root_numpy is not code of the repository: the network, the optimiser, the data
  loader, the random generator and the tree reader are parameters of the model, and a
  raised exception is the \<open>Inl\<close> branch of a sum.
\<close>

datatype error = AssertionError | ZeroDivisionError | ValueError | IndexError | RuntimeError

section \<open>Doubles\<close>

text \<open>Rounding to the nearest integer, a tie going to the even one.\<close>

definition round_half_even :: "real \<Rightarrow> int" where
  "round_half_even x =
     (let f = \<lfloor>x\<rfloor>; r = x - of_int f
      in if r < 1 / 2 then f else if 1 / 2 < r then f + 1 else if even f then f else f + 1)"

definition pow2 :: "int \<Rightarrow> real" where
  "pow2 k = (if 0 \<le> k then 2 ^ nat k else 1 / 2 ^ nat (- k))"

text \<open>
  The binary exponent of a positive number \<open>x\<close>: the \<open>e\<close> with
  \<open>pow2 e \<le> x < pow2 (e + 1)\<close>, from the number of bits of the integer part of \<open>x\<close>, or
  of \<open>1 / x\<close> when \<open>x\<close> is below \<open>1\<close>.
\<close>

definition exponent :: "real \<Rightarrow> int" where
  "exponent x = (if 1 \<le> x then bitlen \<lfloor>x\<rfloor> - 1 else - bitlen (\<lceil>1 / x\<rceil> - 1))"

text \<open>
  The double nearest to a real number (IEEE 754 binary64, round to nearest, ties to
  even): 53 significant bits, so that the doubles around \<open>x\<close> are the multiples of
  \<open>pow2 (exponent \<bar>x\<bar> - 52)\<close>, and of \<open>pow2 (- 1074)\<close> in the subnormal range. Overflow is
  not modelled.
\<close>

definition rd :: "real \<Rightarrow> real" where
  "rd x =
     (if x = 0 then 0
      else let q = pow2 (max (exponent \<bar>x\<bar> - 52) (- 1074))
           in of_int (round_half_even (x / q)) * q)"

text \<open>Sum, product and quotient of two doubles, and the double of an integer.\<close>

definition fadd :: "real \<Rightarrow> real \<Rightarrow> real" where
  "fadd x y = rd (x + y)"

definition fmul :: "real \<Rightarrow> real \<Rightarrow> real" where
  "fmul x y = rd (x * y)"

definition fdiv :: "real \<Rightarrow> real \<Rightarrow> real" where
  "fdiv x y = rd (x / y)"

definition float_of_nat :: "nat \<Rightarrow> real" where
  "float_of_nat n = rd (real n)"

text \<open>
  \<^verbatim>\<open>'%.7f' % x\<close>: Python prints the decimal nearest to the double \<open>x\<close> with the given
  number of digits after the point, a tie going to the even last digit; \<open>fmt_float\<close> is
  the number printed. \<^verbatim>\<open>float('%.7f' % x)\<close> is the double nearest to it.
\<close>

definition fmt_float :: "nat \<Rightarrow> real \<Rightarrow> real" where
  "fmt_float d x = of_int (round_half_even (x * 10 ^ d)) / 10 ^ d"

definition float_of_fmt :: "nat \<Rightarrow> real \<Rightarrow> real" where
  "float_of_fmt d x = rd (fmt_float d x)"

section \<open>Trainer.train\<close>

text \<open>
  The PyTorch calls of the training loop:
  \<^item> \<open>SGD net lr\<close> is \<^verbatim>\<open>optim.SGD(self.net.parameters(), lr=lr, momentum=0.9)\<close>, a fresh
    optimiser;
  \<^item> \<open>train_step opt net data\<close> is one body of the minibatch loop, from
    \<^verbatim>\<open>optimizer.zero_grad()\<close> to \<^verbatim>\<open>optimizer.step()\<close>; it returns the optimiser, the
    updated network and \<^verbatim>\<open>loss.item()\<close>.
\<close>

record ('net, 'opt, 'b) torch =
  SGD :: "'net \<Rightarrow> real \<Rightarrow> 'opt"
  train_step :: "'opt \<Rightarrow> 'net \<Rightarrow> 'b \<Rightarrow> 'opt \<times> 'net \<times> real"

text \<open>
  \<^verbatim>\<open>trainloader = DataLoader(train_dataset, batch_size=batch_size, shuffle=True)\<close>:
  \<open>loader_iter dl epoch\<close> is the list of batches that iterating the loader yields during
  that epoch (the order is drawn anew each time) and \<open>loader_len dl\<close> is
  \<^verbatim>\<open>len(trainloader)\<close>.
\<close>

record 'b DataLoader =
  loader_iter :: "int \<Rightarrow> 'b list"
  loader_len :: nat

text \<open>The entries of the JSON log line of an epoch; the timestamp is left out.\<close>

record epoch_log =
  log_epoch :: int
  log_loss :: real
  log_lr :: real

text \<open>The loop \<^verbatim>\<open>for data in tqdm(trainloader)\<close> with its accumulator \<^verbatim>\<open>tot_loss\<close>.\<close>

fun batch_loop ::
  "('net, 'opt, 'b) torch \<Rightarrow> 'opt \<Rightarrow> 'net \<Rightarrow> real \<Rightarrow> 'b list \<Rightarrow> 'opt \<times> 'net \<times> real" where
  "batch_loop T optimizer net tot_loss [] = (optimizer, net, tot_loss)"
| "batch_loop T optimizer net tot_loss (d # ds) =
     (case train_step T optimizer net d of
        (optimizer', net', loss) \<Rightarrow> batch_loop T optimizer' net' (fadd tot_loss loss) ds)"

text \<open>
  The loop \<^verbatim>\<open>for epoch in range(1, epochs+1)\<close>, over the list of the epoch indices still
  to run. \<^verbatim>\<open>epoch % decay\<close> raises ZeroDivisionError when \<open>decay\<close> is zero, and so does
  \<^verbatim>\<open>tot_loss /= len(trainloader)\<close> for a loader with no batch. The log line of an epoch
  is printed when \<^verbatim>\<open>logging\<close> is set and appended to \<^verbatim>\<open>log_file\<close> when there is one; the
  model returns the lines in order, with the network as training leaves it.
\<close>

fun epoch_loop ::
  "('net, 'opt, 'b) torch \<Rightarrow> 'b DataLoader \<Rightarrow> int \<Rightarrow> 'net \<Rightarrow> real \<Rightarrow> int list
     \<Rightarrow> error + ('net \<times> epoch_log list)" where
  "epoch_loop T dl decay net lr [] = Inr (net, [])"
| "epoch_loop T dl decay net lr (epoch # rest) =
     (if decay = 0 then Inl ZeroDivisionError
      else
        let lr' = (if epoch mod decay = 0 then fdiv lr 3 else lr);
            optimizer = SGD T net lr'
        in case batch_loop T optimizer net 0 (loader_iter dl epoch) of
             (optimizer', net', tot_loss) \<Rightarrow>
               if loader_len dl = 0 then Inl ZeroDivisionError
               else
                 let tot_loss' = fdiv tot_loss (float_of_nat (loader_len dl));
                     entry = \<lparr>log_epoch = epoch,
                              log_loss = float_of_fmt 7 tot_loss',
                              log_lr = float_of_fmt 6 lr'\<rparr>
                 in case epoch_loop T dl decay net' lr' rest of
                      Inl e \<Rightarrow> Inl e
                    | Inr (net'', logs) \<Rightarrow> Inr (net'', entry # logs))"

definition train ::
  "('net, 'opt, 'b) torch \<Rightarrow> 'b DataLoader \<Rightarrow> 'net \<Rightarrow> int \<Rightarrow> real \<Rightarrow> int
     \<Rightarrow> error + ('net \<times> epoch_log list)" where
  "train T trainloader net epochs lr decay = epoch_loop T trainloader decay net lr [1..epochs]"

subsection \<open>What the training loop is to do\<close>

text \<open>The number of multiples of \<open>decay\<close> among the epoch indices \<open>1, \<dots>, e\<close>.\<close>

definition multiples_upto :: "int \<Rightarrow> int \<Rightarrow> nat" where
  "multiples_upto decay e = card {k \<in> {1..e}. decay dvd k}"

text \<open>
  The rate of epoch \<open>e\<close>: the initial rate, divided by \<open>3\<close> once for every multiple of
  \<open>decay\<close> up to \<open>e\<close>, each division rounding to a double.
\<close>

definition epoch_rate :: "real \<Rightarrow> int \<Rightarrow> int \<Rightarrow> real" where
  "epoch_rate lr decay e = ((\<lambda>x. fdiv x 3) ^^ multiples_upto decay e) lr"

text \<open>
  An epoch run with a given optimiser from a given network: the network after the last
  batch, and the \<^verbatim>\<open>loss.item()\<close> of every batch in order.
\<close>

fun run_batches ::
  "('net, 'opt, 'b) torch \<Rightarrow> 'opt \<Rightarrow> 'net \<Rightarrow> 'b list \<Rightarrow> 'net \<times> real list" where
  "run_batches T optimizer net [] = (net, [])"
| "run_batches T optimizer net (d # ds) =
     (case train_step T optimizer net d of
        (optimizer', net', loss) \<Rightarrow>
          (case run_batches T optimizer' net' ds of (net'', losses) \<Rightarrow> (net'', loss # losses)))"

text \<open>
  The network after \<open>k\<close> epochs, each epoch \<open>e\<close> run with a fresh optimiser of rate
  \<open>epoch_rate lr decay e\<close> on the batches the loader yields for it; and the batch losses of
  epoch \<open>e\<close>.
\<close>

fun trained ::
  "('net, 'opt, 'b) torch \<Rightarrow> 'b DataLoader \<Rightarrow> real \<Rightarrow> int \<Rightarrow> 'net \<Rightarrow> nat \<Rightarrow> 'net" where
  "trained T dl lr decay net 0 = net"
| "trained T dl lr decay net (Suc k) =
     fst (run_batches T
            (SGD T (trained T dl lr decay net k) (epoch_rate lr decay (int k + 1)))
            (trained T dl lr decay net k) (loader_iter dl (int k + 1)))"

definition epoch_losses ::
  "('net, 'opt, 'b) torch \<Rightarrow> 'b DataLoader \<Rightarrow> real \<Rightarrow> int \<Rightarrow> 'net \<Rightarrow> int \<Rightarrow> real list" where
  "epoch_losses T dl lr decay net e =
     snd (run_batches T
            (SGD T (trained T dl lr decay net (nat (e - 1))) (epoch_rate lr decay e))
            (trained T dl lr decay net (nat (e - 1))) (loader_iter dl e))"

text \<open>The sum of a list of doubles, added one after another to \<open>0.0\<close>.\<close>

definition float_sum :: "real list \<Rightarrow> real" where
  "float_sum xs = foldl fadd 0 xs"

text \<open>
  The log line of epoch \<open>e\<close>: the sum of the batch losses of the epoch divided by the
  number of batches, and the rate of the epoch, each as \<^verbatim>\<open>float('%.7f' % x)\<close> and
  \<^verbatim>\<open>float('%.6f' % x)\<close> leave it.
\<close>

definition epoch_entry ::
  "('net, 'opt, 'b) torch \<Rightarrow> 'b DataLoader \<Rightarrow> real \<Rightarrow> int \<Rightarrow> 'net \<Rightarrow> int \<Rightarrow> epoch_log" where
  "epoch_entry T dl lr decay net e =
     \<lparr>log_epoch = e,
       log_loss = float_of_fmt 7 (fdiv (float_sum (epoch_losses T dl lr decay net e))
                                       (float_of_nat (loader_len dl))),
       log_lr = float_of_fmt 6 (epoch_rate lr decay e)\<rparr>"

section \<open>Trainer.predict and Trainer.score\<close>

text \<open>
  \<^verbatim>\<open>np.argmax\<close> of one row: the first index that holds the largest entry; an empty row
  raises ValueError. \<open>argmax_from best v i xs\<close> scans the rest \<open>xs\<close> of the row, whose
  first entry has index \<open>i\<close>, with \<open>v\<close> the largest entry seen so far, at index \<open>best\<close>.
\<close>

fun argmax_from :: "nat \<Rightarrow> real \<Rightarrow> nat \<Rightarrow> real list \<Rightarrow> nat" where
  "argmax_from best v i [] = best"
| "argmax_from best v i (x # xs) =
     (if v < x then argmax_from i x (Suc i) xs else argmax_from best v (Suc i) xs)"

definition np_argmax :: "real list \<Rightarrow> error + nat" where
  "np_argmax row = (case row of [] \<Rightarrow> Inl ValueError | x # xs \<Rightarrow> Inr (argmax_from 0 x 1 xs))"

text \<open>\<^verbatim>\<open>np.argmax(labels, axis=1)\<close> on the output matrix, given as the list of its rows.\<close>

fun argmax_axis1 :: "real list list \<Rightarrow> error + nat list" where
  "argmax_axis1 [] = Inr []"
| "argmax_axis1 (row # rest) =
     (case np_argmax row of
        Inl e \<Rightarrow> Inl e
      | Inr k \<Rightarrow> (case argmax_axis1 rest of Inl e \<Rightarrow> Inl e | Inr ks \<Rightarrow> Inr (k # ks)))"

text \<open>
  \<open>net inputs\<close> is \<^verbatim>\<open>self.net(inputs).cpu().numpy()\<close> in evaluation mode, with the
  conversion of the inputs to a tensor before it (and, in the CNN notebook, their reshape
  to \<^verbatim>\<open>(1, imgsize, imgsize)\<close>): the rows of the output matrix, or the exception raised.
\<close>

definition predict :: "('x list \<Rightarrow> error + real list list) \<Rightarrow> 'x list \<Rightarrow> error + nat list" where
  "predict net inputs =
     (case net inputs of Inl e \<Rightarrow> Inl e | Inr labels \<Rightarrow> argmax_axis1 labels)"





text \<open>
  The index \<open>k\<close> of the maximum entry of a row: it is an index of the row, no entry of
  the row is larger than the one at \<open>k\<close>, and every entry before \<open>k\<close> is smaller (among equal
  largest entries NumPy takes the first).
\<close>

definition is_argmax :: "real list \<Rightarrow> nat \<Rightarrow> bool" where
  "is_argmax row k =
     (k < length row \<and> (\<forall>j<length row. row ! j \<le> row ! k) \<and> (\<forall>j<k. row ! j < row ! k))"

section \<open>Trainer.save_model and Trainer.load_model\<close>

text \<open>
  A tensor is its device, its shape and its entries. A state dict is an ordered dictionary
  from the names of the parameters and buffers of a module to their tensors, given as
  the list of its items and read with \<open>map_of\<close>; a module is given by its state dict. The
  file system holds a pickled state dict under some paths, and \<open>writable\<close> says where a
  file can be written.
\<close>

datatype device = CPU | CUDA

record tensor =
  device :: device
  shape :: "nat list"
  entries :: "real list"

type_synonym state_dict = "(string \<times> tensor) list"

record filesystem =
  files :: "string \<rightharpoonup> state_dict"
  writable :: "string \<Rightarrow> bool"

record Trainer =
  net :: state_dict
  cuda_flag :: bool

text \<open>\<^verbatim>\<open>torch.save(obj, path)\<close>.\<close>

definition torch_save :: "state_dict \<Rightarrow> string \<Rightarrow> filesystem \<Rightarrow> error + filesystem" where
  "torch_save obj path fs =
     (if writable fs path then Inr (fs\<lparr>files := (files fs)(path \<mapsto> obj)\<rparr>) else Inl RuntimeError)"

text \<open>
  \<^verbatim>\<open>torch.load(path, map_location)\<close> on a machine where CUDA is available or not: without
  a \<open>map_location\<close> every tensor goes back to the device it was saved from, which fails
  for a CUDA tensor where there is no CUDA; with one, every tensor goes to that device.
\<close>

definition torch_load ::
  "bool \<Rightarrow> filesystem \<Rightarrow> string \<Rightarrow> device option \<Rightarrow> error + state_dict" where
  "torch_load cuda_available fs path map_location =
     (case files fs path of
        None \<Rightarrow> Inl RuntimeError
      | Some obj \<Rightarrow>
          (case map_location of
             Some d \<Rightarrow> Inr (map (\<lambda>(k, t). (k, t\<lparr>device := d\<rparr>)) obj)
           | None \<Rightarrow>
               if \<not> cuda_available \<and> list_ex (\<lambda>(k, t). device t = CUDA) obj
               then Inl RuntimeError
               else Inr obj))"

text \<open>
  \<^verbatim>\<open>model.load_state_dict(sd)\<close>, strict: a missing key, an unexpected key or an entry of
  another shape raises RuntimeError; otherwise every entry is copied into the module's
  own tensor, which stays on its device.
\<close>

definition load_state_dict :: "state_dict \<Rightarrow> state_dict \<Rightarrow> error + state_dict" where
  "load_state_dict model sd =
     (if set (map fst sd) \<noteq> set (map fst model) then Inl RuntimeError
      else if list_ex (\<lambda>k. map_option shape (map_of sd k) \<noteq> map_option shape (map_of model k))
                (map fst model)
      then Inl RuntimeError
      else Inr (map (\<lambda>(k, own). (k, case map_of sd k of
                                        Some given \<Rightarrow> own\<lparr>entries := entries given\<rparr>
                                      | None \<Rightarrow> own)) model))"

definition save_model ::
  "Trainer \<Rightarrow> string \<Rightarrow> state_dict option \<Rightarrow> filesystem \<Rightarrow> error + filesystem" where
  "save_model self checkpoint_path model fs =
     (let model' = (case model of None \<Rightarrow> net self | Some m \<Rightarrow> m)
      in torch_save model' checkpoint_path fs)"

text \<open>
  \<open>load_model\<close> returns the trainer and the module passed as \<open>model\<close>, as the call leaves
  them. \<open>cuda_flag\<close> was set from \<^verbatim>\<open>torch.cuda.is_available()\<close> when the trainer was built.
\<close>

definition load_model ::
  "Trainer \<Rightarrow> string \<Rightarrow> state_dict option \<Rightarrow> filesystem
     \<Rightarrow> error + (Trainer \<times> state_dict option)" where
  "load_model self checkpoint_path model fs =
     (let model' = (case model of None \<Rightarrow> net self | Some m \<Rightarrow> m);
          loaded = (if cuda_flag self then torch_load (cuda_flag self) fs checkpoint_path None
                    else torch_load (cuda_flag self) fs checkpoint_path (Some CPU))
      in case loaded of
           Inl e \<Rightarrow> Inl e
         | Inr sd \<Rightarrow>
             (case load_state_dict model' sd of
                Inl e \<Rightarrow> Inl e
              | Inr model'' \<Rightarrow>
                  (case model of
                     None \<Rightarrow> Inr (self\<lparr>net := model''\<rparr>, None)
                   | Some m \<Rightarrow> Inr (self, Some model''))))"

text \<open>
  Two modules of the same architecture: the same keys, with the same shape under each.
\<close>

definition same_architecture :: "state_dict \<Rightarrow> state_dict \<Rightarrow> bool" where
  "same_architecture a b = (\<forall>k. map_option shape (map_of a k) = map_option shape (map_of b k))"

text \<open>The contents of a state dict: the shape and the entries under every key.\<close>

definition contents :: "state_dict \<Rightarrow> string \<Rightarrow> (nat list \<times> real list) option" where
  "contents sd k = map_option (\<lambda>t. (shape t, entries t)) (map_of sd k)"

section \<open>get_dataset\<close>

text \<open>
  The generator behind \<^verbatim>\<open>np.random\<close>, with state \<open>'g\<close>: \<open>seed\<close> gives the state after
  \<^verbatim>\<open>np.random.seed(n)\<close>; \<open>shuffle g xs\<close> gives the order \<^verbatim>\<open>np.random.shuffle\<close> leaves the
  rows \<open>xs\<close> in, and the next state; \<open>permutation g n\<close> gives the index array
  \<^verbatim>\<open>np.random.permutation(n)\<close>, and the next state.
\<close>

record ('g, 'a) np_random =
  seed :: "nat \<Rightarrow> 'g"
  shuffle :: "'g \<Rightarrow> 'a list \<Rightarrow> 'a list \<times> 'g"
  permutation :: "'g \<Rightarrow> nat \<Rightarrow> nat list \<times> 'g"

text \<open>
  What NumPy promises of them: a shuffle rearranges the rows, and a permutation of \<open>n\<close>
  holds every index below \<open>n\<close> once.
\<close>

definition rng_ok :: "('g, 'a) np_random \<Rightarrow> bool" where
  "rng_ok R =
     ((\<forall>g xs. mset (fst (shuffle R g xs)) = mset xs) \<and>
      (\<forall>g n. mset (fst (permutation R g n)) = mset [0..<n]))"

text \<open>
  What a call can change outside itself: the state of the global generator, and the
  trees read so far (file and tree name of every \<^verbatim>\<open>root2array\<close> call).
\<close>

record 'g world =
  np_random_state :: 'g
  trees_read :: "(string \<times> string) list"

text \<open>
  An array of examples: its rows, and its number of dimensions. \<^verbatim>\<open>np.array\<close> of an empty
  list is one-dimensional (shape \<open>(0,)\<close>), of a non-empty list of flat examples
  two-dimensional; slicing along the first axis keeps the number of dimensions.
\<close>

record 'a ndarray =
  ndim :: nat
  rows :: "'a list"

definition np_array :: "'a list \<Rightarrow> 'a ndarray" where
  "np_array xs = \<lparr>ndim = (if xs = [] then 1 else 2), rows = xs\<rparr>"

text \<open>Python's \<^verbatim>\<open>xs[:k]\<close> and \<^verbatim>\<open>xs[k:]\<close>: a negative \<open>k\<close> counts from the end.\<close>

definition slice_to :: "'a list \<Rightarrow> int \<Rightarrow> 'a list" where
  "slice_to xs k = (if k < 0 then take (nat (int (length xs) + k)) xs else take (nat k) xs)"

definition slice_from :: "'a list \<Rightarrow> int \<Rightarrow> 'a list" where
  "slice_from xs k = (if k < 0 then drop (nat (int (length xs) + k)) xs else drop (nat k) xs)"

text \<open>\<^verbatim>\<open>int(x)\<close> of a float: truncation towards zero.\<close>

definition py_int :: "real \<Rightarrow> int" where
  "py_int x = (if 0 \<le> x then \<lfloor>x\<rfloor> else \<lceil>x\<rceil>)"

text \<open>
  \<^verbatim>\<open>int(len(data) * test_split)\<close> for an array of \<open>n\<close> rows: the length becomes a double,
  the product is rounded to a double, and \<^verbatim>\<open>int\<close> truncates it.
\<close>

definition test_size_of :: "nat \<Rightarrow> real \<Rightarrow> int" where
  "test_size_of n test_split = py_int (fmul (float_of_nat n) test_split)"

text \<open>
  \<^verbatim>\<open>np.concatenate(arrays, axis=0)\<close>: ValueError for no array at all and for arrays that
  differ in their number of dimensions.
\<close>

definition np_concatenate :: "'a ndarray list \<Rightarrow> error + 'a list" where
  "np_concatenate arrays =
     (case arrays of
        [] \<Rightarrow> Inl ValueError
      | a # rest \<Rightarrow>
          if list_all (\<lambda>b. ndim b = ndim a) rest then Inr (concat (map rows arrays))
          else Inl ValueError)"

text \<open>\<^verbatim>\<open>xs[perm]\<close> with an index array: IndexError for an index out of bounds.\<close>

definition np_take :: "'b list \<Rightarrow> nat list \<Rightarrow> error + 'b list" where
  "np_take xs perm =
     (if list_all (\<lambda>i. i < length xs) perm then Inr (map (\<lambda>i. xs ! i) perm) else Inl IndexError)"

text \<open>The four lists the loop over the trees appends to.\<close>

record 'a pieces =
  X_train :: "'a ndarray list"
  Y_train :: "nat list list"
  X_test :: "'a ndarray list"
  Y_test :: "nat list list"

text \<open>The body of \<^verbatim>\<open>for label, data in enumerate(tree_data)\<close>.\<close>

definition split_tree ::
  "('g, 'a) np_random \<Rightarrow> real \<Rightarrow> nat \<Rightarrow> 'a ndarray \<Rightarrow> 'a pieces \<Rightarrow> 'g \<Rightarrow> 'a pieces \<times> 'g" where
  "split_tree R test_split label data acc g =
     (case shuffle R g (rows data) of
        (shuffled, g') \<Rightarrow>
          let data' = data\<lparr>rows := shuffled\<rparr>;
              test_size = test_size_of (length (rows data')) test_split
          in (\<lparr>X_train = X_train acc @ [data'\<lparr>rows := slice_to (rows data') (- test_size)\<rparr>],
               Y_train = Y_train acc @ [replicate (nat (int (length (rows data')) - test_size)) label],
               X_test = X_test acc @ [data'\<lparr>rows := slice_from (rows data') (- test_size)\<rparr>],
               Y_test = Y_test acc @ [replicate (nat test_size) label]\<rparr>, g'))"

fun tree_loop ::
  "('g, 'a) np_random \<Rightarrow> real \<Rightarrow> (nat \<times> 'a ndarray) list \<Rightarrow> 'a pieces \<Rightarrow> 'g \<Rightarrow> 'a pieces \<times> 'g" where
  "tree_loop R test_split [] acc g = (acc, g)"
| "tree_loop R test_split ((label, data) # rest) acc g =
     (case split_tree R test_split label data acc g of
        (acc', g') \<Rightarrow> tree_loop R test_split rest acc' g')"

text \<open>
  From the concatenations to the two length assertions: the train and the test arrays
  before the final shuffles.
\<close>

definition assemble :: "'a pieces \<Rightarrow> error + (('a list \<times> nat list) \<times> ('a list \<times> nat list))" where
  "assemble p =
     (case np_concatenate (X_train p) of
        Inl e \<Rightarrow> Inl e
      | Inr X_train' \<Rightarrow>
          (case np_concatenate (X_test p) of
             Inl e \<Rightarrow> Inl e
           | Inr X_test' \<Rightarrow>
               let Y_train' = concat (Y_train p);
                   Y_test' = concat (Y_test p)
               in if length Y_train' \<noteq> length X_train' then Inl AssertionError
                  else if length Y_test' \<noteq> length X_test' then Inl AssertionError
                  else Inr ((X_train', Y_train'), (X_test', Y_test'))))"

text \<open>The final shuffles: one permutation for the train arrays, then one for the test arrays.\<close>

definition shuffle_splits ::
  "('g, 'a) np_random \<Rightarrow> ('a list \<times> nat list) \<times> ('a list \<times> nat list) \<Rightarrow> 'g
     \<Rightarrow> (error + (('a list \<times> nat list) \<times> ('a list \<times> nat list))) \<times> 'g" where
  "shuffle_splits R s g =
     (case s of
        ((X_train', Y_train'), (X_test', Y_test')) \<Rightarrow>
          (case permutation R g (length X_train') of
             (train_perm, g1) \<Rightarrow>
               (case np_take X_train' train_perm of
                  Inl e \<Rightarrow> (Inl e, g1)
                | Inr X_train'' \<Rightarrow>
                    (case np_take Y_train' train_perm of
                       Inl e \<Rightarrow> (Inl e, g1)
                     | Inr Y_train'' \<Rightarrow>
                         (case permutation R g1 (length X_test') of
                            (test_perm, g2) \<Rightarrow>
                              (case np_take X_test' test_perm of
                                 Inl e \<Rightarrow> (Inl e, g2)
                               | Inr X_test'' \<Rightarrow>
                                   (case np_take Y_test' test_perm of
                                      Inl e \<Rightarrow> (Inl e, g2)
                                    | Inr Y_test'' \<Rightarrow>
                                        (Inr ((X_train'', Y_train''), (X_test'', Y_test'')),
                                         g2))))))))"

text \<open>
  \<open>get_dataset\<close>. \<open>root2array file tree\<close> is the list of the entries of a tree and \<open>conv\<close>
  what the notebook makes of an entry (\<^verbatim>\<open>np.array(list(img)).reshape(-1)\<close> in the LSTM
  notebook, \<^verbatim>\<open>img[0]\<close> in the CNN one); \<open>sig_tree\<close> and \<open>bkg_tree\<close> name the two trees
  (\<^verbatim>\<open>'sgn'\<close> and \<^verbatim>\<open>'bkg'\<close>, or \<^verbatim>\<open>'sig_tree'\<close> and \<^verbatim>\<open>'bkg_tree'\<close>). The result is the
  value returned or the exception raised, and the world as the call leaves it. The
  literal \<^verbatim>\<open>0.3\<close> of the first assertion is the double nearest to \<open>3/10\<close>.
\<close>

definition get_dataset ::
  "('g, 'a) np_random \<Rightarrow> (string \<Rightarrow> string \<Rightarrow> 'r list) \<Rightarrow> ('r \<Rightarrow> 'a) \<Rightarrow> string \<Rightarrow> string
     \<Rightarrow> string \<Rightarrow> real \<Rightarrow> 'g world
     \<Rightarrow> (error + (('a list \<times> nat list) \<times> ('a list \<times> nat list))) \<times> 'g world" where
  "get_dataset R root2array conv sig_tree bkg_tree data_file test_split w =
     (if \<not> (0 \<le> test_split \<and> test_split \<le> rd (3 / 10)) then (Inl AssertionError, w)
      else
        let signal = root2array data_file sig_tree;
            background = root2array data_file bkg_tree;
            w1 = w\<lparr>trees_read :=
                   trees_read w @ [(data_file, sig_tree), (data_file, bkg_tree)]\<rparr>;
            tree_data = [np_array (map conv signal), np_array (map conv background)];
            g0 = seed R 0
        in case tree_loop R test_split (zip [0..<length tree_data] tree_data)
                  \<lparr>X_train = [], Y_train = [], X_test = [], Y_test = []\<rparr> g0 of
             (p, g1) \<Rightarrow>
               (case assemble p of
                  Inl e \<Rightarrow> (Inl e, w1\<lparr>np_random_state := g1\<rparr>)
                | Inr s \<Rightarrow>
                    (case shuffle_splits R s g1 of
                       (res, g2) \<Rightarrow> (res, w1\<lparr>np_random_state := g2\<rparr>))))"

section \<open>Concrete inputs\<close>

text \<open>
  A framework where the loss of a batch is the batch itself, and a loader of two batches,
  \<open>0.0009765625\<close> and \<open>0.0029296875\<close>.
\<close>

definition T0 :: "(unit, unit, real) torch" where
  "T0 = \<lparr>SGD = (\<lambda>net lr. ()), train_step = (\<lambda>optimizer net loss. (optimizer, net, loss))\<rparr>"

definition dl0 :: "real DataLoader" where
  "dl0 = \<lparr>loader_iter = (\<lambda>epoch. [1 / 1024, 3 / 1024]), loader_len = 2\<rparr>"

text \<open>
  A framework that shows the rate: the optimiser is its rate, and a training step writes
  the rate of its optimiser into the network and returns it as the loss. With it, a
  loader of one batch in every epoch.
\<close>

definition T1 :: "(real, real, unit) torch" where
  "T1 = \<lparr>SGD = (\<lambda>net lr. lr),
         train_step = (\<lambda>optimizer net data. (optimizer, optimizer, optimizer))\<rparr>"

definition dl1 :: "unit DataLoader" where
  "dl1 = \<lparr>loader_iter = (\<lambda>epoch. [()]), loader_len = 1\<rparr>"

text \<open>A network whose output rows are its input rows.\<close>

definition echo_net :: "real list list \<Rightarrow> error + real list list" where
  "echo_net inputs = Inr inputs"

text \<open>
  A trainer on a CUDA machine, a trainer of the same architecture on a machine without
  CUDA, and a file system where every path can be written.
\<close>

definition saver0 :: Trainer where
  "saver0 = \<lparr>net = [(''fc.weight'', \<lparr>device = CUDA, shape = [1, 2], entries = [1, 2]\<rparr>),
                      (''fc.bias'', \<lparr>device = CUDA, shape = [1], entries = [3]\<rparr>)],
             cuda_flag = True\<rparr>"

definition loader0 :: Trainer where
  "loader0 = \<lparr>net = [(''fc.weight'', \<lparr>device = CPU, shape = [1, 2], entries = [0, 0]\<rparr>),
                       (''fc.bias'', \<lparr>device = CPU, shape = [1], entries = [0]\<rparr>)],
              cuda_flag = False\<rparr>"

definition fs0 :: filesystem where
  "fs0 = \<lparr>files = Map.empty, writable = (\<lambda>path. True)\<rparr>"

text \<open>A generator that reverses what it shuffles and counts its calls.\<close>

definition R0 :: "(nat, string) np_random" where
  "R0 = \<lparr>seed = (\<lambda>n. n),
         shuffle = (\<lambda>g xs. (rev xs, Suc g)),
         permutation = (\<lambda>g n. (rev [0..<n], Suc g))\<rparr>"

definition w0 :: "nat world" where
  "w0 = \<lparr>np_random_state = 7, trees_read = []\<rparr>"

text \<open>A file with a signal tree of four entries and a background tree of five.\<close>

definition file0 :: "string \<Rightarrow> string \<Rightarrow> string list" where
  "file0 data_file tree =
     (if tree = ''sgn'' then [''s1'', ''s2'', ''s3'', ''s4'']
      else if tree = ''bkg'' then [''b1'', ''b2'', ''b3'', ''b4'', ''b5'']
      else [])"

section \<open>Rounding to a double\<close>

text \<open>The powers of two.\<close>

lemma pow2_powi: "pow2 k = 2 powi k"
  by (simp add: pow2_def power_int_def field_simps)

lemma pow2_pos: "0 < pow2 k"
  by (simp add: pow2_powi)

lemma pow2_mono: "a \<le> b \<Longrightarrow> pow2 a \<le> pow2 b"
  unfolding pow2_powi by (rule power_int_increasing) simp_all

text \<open>Rounding to an integer moves a number by a half at most.\<close>

lemma round_half_even_near: "\<bar>of_int (round_half_even y) - y\<bar> \<le> 1 / 2"
  unfolding round_half_even_def Let_def by (auto simp: abs_le_iff)

lemma round_half_even_nonneg: "0 \<le> y \<Longrightarrow> 0 \<le> round_half_even y"
  unfolding round_half_even_def Let_def by auto

text \<open>
  The exponent of a positive number \<open>x\<close> is the integer \<open>e\<close> with
  \<open>2 ^ e \<le> x < 2 ^ (e + 1)\<close>.
\<close>

lemma exponent_lower:
  assumes "0 < x"
  shows "pow2 (exponent x) \<le> x"
proof (cases "1 \<le> x")
  case True
  then have m: "0 < \<lfloor>x\<rfloor>" by simp
  from bitlen_bounds [OF m] have "2 ^ nat (bitlen \<lfloor>x\<rfloor> - 1) \<le> \<lfloor>x\<rfloor>" by simp
  then have "(2::real) ^ nat (bitlen \<lfloor>x\<rfloor> - 1) \<le> of_int \<lfloor>x\<rfloor>"
    by (metis of_int_le_iff of_int_numeral of_int_power)
  also have "\<dots> \<le> x" by simp
  finally have le: "(2::real) ^ nat (bitlen \<lfloor>x\<rfloor> - 1) \<le> x" .
  from m have "1 \<le> bitlen \<lfloor>x\<rfloor>" by (auto simp: bitlen_alt_def)
  with True le show ?thesis by (simp add: exponent_def pow2_def)
next
  case False
  with assms have big: "1 < 1 / x" by simp
  define m where "m = \<lceil>1 / x\<rceil>"
  define k where "k = bitlen (m - 1)"
  from big have m2: "2 \<le> m" unfolding m_def by linarith
  then have pos: "0 < m - 1" by simp
  from bitlen_bounds [OF pos] have "m - 1 < 2 ^ nat k" unfolding k_def by simp
  then have "m \<le> 2 ^ nat k" by simp
  then have B: "of_int m \<le> (2::real) ^ nat k"
    by (metis of_int_le_iff of_int_numeral of_int_power)
  have A: "1 / x \<le> of_int m" unfolding m_def by simp
  from A B have "1 / x \<le> 2 ^ nat k" by (rule order_trans)
  with assms have "1 / 2 ^ nat k \<le> x" by (simp add: field_simps)
  moreover have "0 \<le> k" unfolding k_def by (rule bitlen_nonneg)
  ultimately have "pow2 (- k) \<le> x" by (cases "k = 0") (auto simp: pow2_def)
  with False show ?thesis by (simp add: exponent_def k_def m_def)
qed

lemma exponent_upper:
  assumes "0 < x"
  shows "x < pow2 (exponent x + 1)"
proof (cases "1 \<le> x")
  case True
  then have m: "0 < \<lfloor>x\<rfloor>" by simp
  from bitlen_bounds [OF m] have "\<lfloor>x\<rfloor> + 1 \<le> 2 ^ nat (bitlen \<lfloor>x\<rfloor>)" by simp
  then have "of_int (\<lfloor>x\<rfloor> + 1) \<le> (2::real) ^ nat (bitlen \<lfloor>x\<rfloor>)"
    by (metis of_int_le_iff of_int_numeral of_int_power)
  moreover have "x < of_int (\<lfloor>x\<rfloor> + 1)" by linarith
  ultimately have "x < 2 ^ nat (bitlen \<lfloor>x\<rfloor>)" by (rule less_le_trans [rotated])
  moreover have "0 \<le> bitlen \<lfloor>x\<rfloor>" by (rule bitlen_nonneg)
  ultimately show ?thesis using True by (simp add: exponent_def pow2_def)
next
  case False
  with assms have big: "1 < 1 / x" by simp
  define m where "m = \<lceil>1 / x\<rceil>"
  define k where "k = bitlen (m - 1)"
  from big have m2: "2 \<le> m" unfolding m_def by linarith
  then have pos: "0 < m - 1" by simp
  then have k1: "1 \<le> k" unfolding k_def by (auto simp: bitlen_alt_def)
  from bitlen_bounds [OF pos] have "2 ^ nat (k - 1) \<le> m - 1" unfolding k_def by simp
  then have B: "(2::real) ^ nat (k - 1) \<le> of_int (m - 1)"
    by (metis of_int_le_iff of_int_numeral of_int_power)
  have A: "of_int (m - 1) < 1 / x" unfolding m_def by linarith
  from B A have "2 ^ nat (k - 1) < 1 / x" by (rule le_less_trans)
  with assms have lt: "x < 1 / 2 ^ nat (k - 1)" by (simp add: field_simps)
  have "pow2 (- k + 1) = 1 / 2 ^ nat (k - 1)"
    using k1 by (cases "k = 1") (auto simp: pow2_def)
  with lt False show ?thesis by (simp add: exponent_def k_def m_def)
qed

text \<open>Rounding keeps the sign, and a crude bound from above.\<close>

lemma rd_nonneg: "0 \<le> x \<Longrightarrow> 0 \<le> rd x"
  by (auto simp: rd_def Let_def intro!: mult_nonneg_nonneg round_half_even_nonneg
      divide_nonneg_pos pow2_pos less_imp_le [OF pow2_pos])

lemma rd_upper:
  assumes "0 \<le> x"
  shows "rd x \<le> 3 / 2 * x + 1 / 2"
proof (cases "x = 0")
  case True
  then show ?thesis by (simp add: rd_def)
next
  case False
  with assms have pos: "0 < x" by simp
  define q where "q = pow2 (max (exponent \<bar>x\<bar> - 52) (- 1074))"
  have q0: "0 < q" unfolding q_def by (rule pow2_pos)
  have "max (exponent \<bar>x\<bar> - 52) (- 1074) \<le> max (exponent x) 0"
    using pos by (auto simp: max_def)
  then have "q \<le> pow2 (max (exponent x) 0)" unfolding q_def by (rule pow2_mono)
  also have "\<dots> \<le> max x 1"
    using exponent_lower [OF pos] by (auto simp: max_def pow2_def)
  finally have q1: "q \<le> x + 1" using pos by simp
  from round_half_even_near [of "x / q"] have "of_int (round_half_even (x / q)) \<le> x / q + 1 / 2"
    by linarith
  then have "of_int (round_half_even (x / q)) * q \<le> (x / q + 1 / 2) * q"
    using q0 by (simp add: mult_right_mono)
  also have "\<dots> = x + q / 2" using q0 by (simp add: field_simps)
  finally have "rd x \<le> x + q / 2" using False by (simp add: rd_def Let_def q_def)
  with q1 show ?thesis by simp
qed

text \<open>
  The doubles the notebooks and the examples below write as \<^verbatim>\<open>0.3\<close>, \<^verbatim>\<open>0.2\<close> and
  \<^verbatim>\<open>0.1\<close>; the first lies below \<open>3/10\<close>.
\<close>

lemma doubles:
  "rd (3 / 10) = 5404319552844595 / 18014398509481984"
  "rd (1 / 5) = 3602879701896397 / 18014398509481984"
  "rd (1 / 10) = 3602879701896397 / 36028797018963968"
  by (simp_all add: fmul_def float_of_nat_def rd_def exponent_def pow2_def round_half_even_def compute_bitlen Let_def)

lemma rd_three_tenths: "rd (3 / 10) \<le> 3 / 10" "0 \<le> rd (3 / 10)"
  by (simp_all add: rd_def exponent_def pow2_def round_half_even_def compute_bitlen Let_def)

text \<open>
  The arithmetic of the runs below: the rates \<open>27\<close>, \<open>9\<close> and \<open>3\<close>; the rate
  \<^verbatim>\<open>0.001\<close> divided by three once and twice, where the second quotient is neither the
  exact \<open>0.001 / 9\<close> nor the double \<^verbatim>\<open>0.001 / 3 ** 2\<close>; and the losses
  \<open>0.0009765625\<close> and \<open>0.0029296875\<close>, whose mean \<open>0.001953125\<close> is printed as
  \<^verbatim>\<open>0.0019531\<close>.
\<close>

lemma arith_27:
  "fdiv 27 3 = 9" "fdiv 9 3 = 3"
  "fadd 0 27 = 27" "fadd 0 9 = 9" "fadd 0 3 = 3"
  "float_of_nat 1 = 1" "float_of_nat (Suc 0) = 1"
  "fdiv 27 1 = 27" "fdiv 9 1 = 9" "fdiv 3 1 = 3"
  "float_of_fmt 7 27 = 27" "float_of_fmt 7 9 = 9" "float_of_fmt 7 3 = 3"
  "float_of_fmt 6 27 = 27" "float_of_fmt 6 9 = 9" "float_of_fmt 6 3 = 3"
  by (simp_all add: fadd_def fmul_def fdiv_def float_of_nat_def float_of_fmt_def fmt_float_def rd_def exponent_def pow2_def round_half_even_def compute_bitlen Let_def)

lemma arith_thousandth:
  "rd (1 / 1000) = 1152921504606847 / 1152921504606846976"
  "fdiv (1152921504606847 / 1152921504606846976) 3 = 6148914691236517 / 18446744073709551616"
  "fdiv (6148914691236517 / 18446744073709551616) 3 = 8198552921648689 / 73786976294838206464"
  "fadd 0 (6148914691236517 / 18446744073709551616) = 6148914691236517 / 18446744073709551616"
  "fadd 0 (8198552921648689 / 73786976294838206464) = 8198552921648689 / 73786976294838206464"
  "fdiv (6148914691236517 / 18446744073709551616) 1 = 6148914691236517 / 18446744073709551616"
  "fdiv (8198552921648689 / 73786976294838206464) 1 = 8198552921648689 / 73786976294838206464"
  "float_of_fmt 7 (6148914691236517 / 18446744073709551616) = rd (3333 / 10000000)"
  "float_of_fmt 7 (8198552921648689 / 73786976294838206464) = rd (1111 / 10000000)"
  "float_of_fmt 6 (6148914691236517 / 18446744073709551616) = rd (333 / 1000000)"
  "float_of_fmt 6 (8198552921648689 / 73786976294838206464) = rd (111 / 1000000)"
  "float_of_fmt 6 (1152921504606847 / 1152921504606846976) = 1152921504606847 / 1152921504606846976"
  "(8198552921648689 / 73786976294838206464 :: real) \<noteq> 1152921504606847 / 1152921504606846976 / 3 ^ 2"
  "(8198552921648689 / 73786976294838206464 :: real) \<noteq> fdiv (1152921504606847 / 1152921504606846976) (3 ^ 2)"
  by (simp_all add: fadd_def fmul_def fdiv_def float_of_nat_def float_of_fmt_def fmt_float_def rd_def exponent_def pow2_def round_half_even_def compute_bitlen Let_def)

lemma arith_losses:
  "fadd 0 (1 / 1024) = 1 / 1024"
  "fadd (1 / 1024) (3 / 1024) = 1 / 256"
  "float_of_nat 2 = 2" "float_of_nat (Suc (Suc 0)) = 2"
  "fdiv (1 / 256) 2 = 1 / 512"
  "float_of_fmt 7 (1 / 512) = rd (19531 / 10000000)"
  "rd (19531 / 10000000) = 9007083962590531 / 4611686018427387904"
  by (simp_all add: fadd_def fmul_def fdiv_def float_of_nat_def float_of_fmt_def fmt_float_def rd_def exponent_def pow2_def round_half_even_def compute_bitlen Let_def)

section \<open>The training loop: learning rate and logged loss\<close>

text \<open>
  The minibatch loop trains the network as \<open>run_batches\<close> does, and adds the losses of
  the batches, in their order, to its accumulator; there is one loss for every batch.
\<close>

lemma batch_loop_run_batches:
  "run_batches T opt n ds = (n', ls) \<Longrightarrow>
     \<exists>opt'. batch_loop T opt n tot ds = (opt', n', foldl fadd tot ls)"
proof (induction ds arbitrary: opt n tot n' ls)
  case Nil
  then show ?case by simp
next
  case (Cons d ds)
  obtain o1 n1 l1 where st: "train_step T opt n d = (o1, n1, l1)"
    by (cases "train_step T opt n d") auto
  obtain n2 ls2 where rb: "run_batches T o1 n1 ds = (n2, ls2)"
    by (cases "run_batches T o1 n1 ds") auto
  from Cons.prems st rb have eq: "n' = n2" "ls = l1 # ls2" by simp_all
  from Cons.IH [OF rb, of "fadd tot l1"] obtain opt' where
    "batch_loop T o1 n1 (fadd tot l1) ds = (opt', n2, foldl fadd (fadd tot l1) ls2)" by blast
  with st eq show ?case by simp
qed

lemma length_run_batches: "length (snd (run_batches T opt n ds)) = length ds"
proof (induction ds arbitrary: opt n)
  case Nil
  then show ?case by simp
next
  case (Cons d ds)
  obtain o1 n1 l1 where st: "train_step T opt n d = (o1, n1, l1)"
    by (cases "train_step T opt n d") auto
  from Cons.IH [of o1 n1] st show ?case by (simp add: case_prod_beta)
qed

text \<open>
  The rate of an epoch is the rate of the epoch before, divided by three when the index
  of the epoch is a multiple of \<open>decay\<close>.
\<close>

lemma multiples_upto_filter:
  "multiples_upto decay e = length (filter (\<lambda>k. k mod decay = 0) [1..e])"
proof -
  have "{k \<in> {1..e}. decay dvd k} = set (filter (\<lambda>k. k mod decay = 0) [1..e])"
    by (auto simp: mod_eq_0_iff_dvd)
  moreover have "distinct (filter (\<lambda>k. k mod decay = 0) [1..e])" by simp
  then have "card (set (filter (\<lambda>k. k mod decay = 0) [1..e])) =
      length (filter (\<lambda>k. k mod decay = 0) [1..e])"
    by (rule distinct_card)
  ultimately show ?thesis unfolding multiples_upto_def by (simp only:)
qed

lemma multiples_upto_step:
  "1 \<le> e \<Longrightarrow> multiples_upto decay e = multiples_upto decay (e - 1) + (if e mod decay = 0 then 1 else 0)"
  by (simp add: multiples_upto_filter upto_rec2)

lemma epoch_rate_0: "epoch_rate lr decay 0 = lr"
  by (simp add: epoch_rate_def multiples_upto_filter)

lemma epoch_rate_step:
  "1 \<le> e \<Longrightarrow> epoch_rate lr decay e =
     (if e mod decay = 0 then fdiv (epoch_rate lr decay (e - 1)) 3 else epoch_rate lr decay (e - 1))"
  by (simp add: epoch_rate_def multiples_upto_step)

text \<open>
  With a non-zero \<open>decay\<close> and a loader of at least one batch, the loop over the epochs
  runs to its end: it returns the network trained epoch after epoch and the log entry of
  every epoch.
\<close>

lemma epoch_loop_trained:
  assumes "decay \<noteq> 0" and "loader_len dl \<noteq> 0"
  shows "epoch_loop T dl decay (trained T dl lr decay n0 k) (epoch_rate lr decay (int k))
           [int k + 1..epochs] =
         Inr (trained T dl lr decay n0 (max k (nat epochs)),
              map (epoch_entry T dl lr decay n0) [int k + 1..epochs])"
proof (induction "nat (epochs - int k)" arbitrary: k)
  case 0
  then have "epochs \<le> int k" by simp
  then have "[int k + 1..epochs] = []" "max k (nat epochs) = k" by simp_all
  then show ?case by simp
next
  case (Suc m)
  define e where "e = int k + 1"
  from Suc.hyps(2) have le: "e \<le> epochs" unfolding e_def by simp
  then have up: "[int k + 1..epochs] = e # [int (Suc k) + 1..epochs]"
    unfolding e_def by (simp add: upto_rec1)
  have e1: "1 \<le> e" "nat (e - 1) = k" "e - 1 = int k" unfolding e_def by simp_all
  define net_k where "net_k = trained T dl lr decay n0 k"
  define lr' where "lr' = (if e mod decay = 0 then fdiv (epoch_rate lr decay (int k)) 3
                            else epoch_rate lr decay (int k))"
  have rate: "lr' = epoch_rate lr decay e"
    unfolding lr'_def using epoch_rate_step [OF e1(1), of lr decay] e1(3) by simp
  obtain n1 ls where rb: "run_batches T (SGD T net_k lr') net_k (loader_iter dl e) = (n1, ls)"
    by (cases "run_batches T (SGD T net_k lr') net_k (loader_iter dl e)") auto
  from batch_loop_run_batches [OF rb, of 0] obtain opt' where
    bl: "batch_loop T (SGD T net_k lr') net_k 0 (loader_iter dl e) = (opt', n1, foldl fadd 0 ls)"
    by blast
  have n1: "n1 = trained T dl lr decay n0 (Suc k)"
    using rb unfolding net_k_def rate e_def by simp
  have ls: "ls = epoch_losses T dl lr decay n0 e"
    using rb unfolding epoch_losses_def net_k_def rate e1(2) by simp
  have entry: "\<lparr>log_epoch = e,
          log_loss = float_of_fmt 7 (fdiv (foldl fadd 0 ls) (float_of_nat (loader_len dl))),
          log_lr = float_of_fmt 6 lr'\<rparr> = epoch_entry T dl lr decay n0 e"
    unfolding epoch_entry_def float_sum_def ls rate ..
  from Suc.hyps(2) have m: "m = nat (epochs - int (Suc k))" by simp
  have esuc: "int (Suc k) = e" unfolding e_def by simp
  have IH: "epoch_loop T dl decay n1 lr' [int (Suc k) + 1..epochs] =
      Inr (trained T dl lr decay n0 (max (Suc k) (nat epochs)),
           map (epoch_entry T dl lr decay n0) [int (Suc k) + 1..epochs])"
    using Suc.hyps(1) [OF m] unfolding n1 rate esuc .
  from le have mx: "max (Suc k) (nat epochs) = max k (nat epochs)" unfolding e_def by simp
  have "epoch_loop T dl decay net_k (epoch_rate lr decay (int k)) (e # [int (Suc k) + 1..epochs]) =
      Inr (trained T dl lr decay n0 (max (Suc k) (nat epochs)),
           epoch_entry T dl lr decay n0 e # map (epoch_entry T dl lr decay n0) [int (Suc k) + 1..epochs])"
    using assms bl IH entry by (simp add: Let_def lr'_def [symmetric])
  then show ?case unfolding up net_k_def mx by simp
qed

lemma train_runs:
  assumes "decay \<noteq> 0" and "loader_len dl \<noteq> 0"
  shows "train T dl n0 epochs lr decay =
     Inr (trained T dl lr decay n0 (nat epochs), map (epoch_entry T dl lr decay n0) [1..epochs])"
  using epoch_loop_trained [OF assms, of T lr n0 0 epochs]
  by (simp add: train_def epoch_rate_0)

text \<open>
  C1, as amended. With a non-zero \<open>decay\<close> and a loader of at least one batch,
  \<open>train\<close> returns, with one log entry for each of the epochs \<open>1, \<dots>, epochs\<close>. The
  optimiser of epoch \<open>e\<close> is built by \<open>SGD\<close> on the network as epoch \<open>e - 1\<close> left
  it, with the learning rate \<open>epoch_rate lr decay e\<close>, and the network after epoch \<open>e\<close>
  is what the training steps of the batches of epoch \<open>e\<close> make of it with that
  optimiser. This rate is the rate of the epoch before (the initial \<open>lr\<close> for epoch
  \<open>1\<close>), divided by \<open>3\<close> in double arithmetic when \<open>e\<close> is a multiple of \<open>decay\<close>
  and unchanged at every other epoch: \<open>lr\<close> divided by \<open>3\<close> once for every multiple of
  \<open>decay\<close> in \<open>[1, e]\<close>, every quotient rounded to a double. The log entry of epoch
  \<open>e\<close> holds the index \<open>e\<close> and this rate as \<^verbatim>\<open>float('%.6f' % lr)\<close>.
\<close>

theorem train_lr_schedule:
  assumes "decay \<noteq> 0" and "loader_len trainloader \<noteq> 0"
  shows "\<exists>logs.
           train T trainloader net0 epochs lr decay =
             Inr (trained T trainloader lr decay net0 (nat epochs), logs) \<and>
           length logs = nat epochs \<and>
           (\<forall>e. 1 \<le> e \<and> e \<le> epochs \<longrightarrow>
              trained T trainloader lr decay net0 (nat e) =
                fst (run_batches T
                       (SGD T (trained T trainloader lr decay net0 (nat (e - 1)))
                          (epoch_rate lr decay e))
                       (trained T trainloader lr decay net0 (nat (e - 1)))
                       (loader_iter trainloader e)) \<and>
              epoch_rate lr decay e =
                (let before = (if e = 1 then lr else epoch_rate lr decay (e - 1))
                 in if e mod decay = 0 then fdiv before 3 else before) \<and>
              log_epoch (logs ! nat (e - 1)) = e \<and>
              log_lr (logs ! nat (e - 1)) = float_of_fmt 6 (epoch_rate lr decay e))"
proof -
  define logs where "logs = map (epoch_entry T trainloader lr decay net0) [1..epochs]"
  have run: "train T trainloader net0 epochs lr decay =
      Inr (trained T trainloader lr decay net0 (nat epochs), logs)"
    unfolding logs_def by (rule train_runs [OF assms])
  have len: "length logs = nat epochs" unfolding logs_def by simp
  have each: "trained T trainloader lr decay net0 (nat e) =
                fst (run_batches T
                       (SGD T (trained T trainloader lr decay net0 (nat (e - 1)))
                          (epoch_rate lr decay e))
                       (trained T trainloader lr decay net0 (nat (e - 1)))
                       (loader_iter trainloader e)) \<and>
              epoch_rate lr decay e =
                (let before = (if e = 1 then lr else epoch_rate lr decay (e - 1))
                 in if e mod decay = 0 then fdiv before 3 else before) \<and>
              log_epoch (logs ! nat (e - 1)) = e \<and>
              log_lr (logs ! nat (e - 1)) = float_of_fmt 6 (epoch_rate lr decay e)"
    if e: "1 \<le> e" "e \<le> epochs" for e
  proof -
    from e have i: "nat (e - 1) < length [1..epochs]" and nth: "[1..epochs] ! nat (e - 1) = e"
      by simp_all
    from e(1) have suc: "nat e = Suc (nat (e - 1))" "int (nat (e - 1)) + 1 = e" by simp_all
    have a: "trained T trainloader lr decay net0 (nat e) =
                fst (run_batches T
                       (SGD T (trained T trainloader lr decay net0 (nat (e - 1)))
                          (epoch_rate lr decay e))
                       (trained T trainloader lr decay net0 (nat (e - 1)))
                       (loader_iter trainloader e))"
      unfolding suc(1) trained.simps suc(2) ..
    have b: "epoch_rate lr decay e =
                (let before = (if e = 1 then lr else epoch_rate lr decay (e - 1))
                 in if e mod decay = 0 then fdiv before 3 else before)"
      using epoch_rate_step [OF e(1), of lr decay] epoch_rate_0 [of lr decay]
      by (auto simp: Let_def)
    have c: "logs ! nat (e - 1) = epoch_entry T trainloader lr decay net0 e"
      unfolding logs_def using nth_map [OF i, of "epoch_entry T trainloader lr decay net0"] nth
      by simp
    from a b c show ?thesis by (simp add: epoch_entry_def)
  qed
  from run len each show ?thesis by blast
qed

text \<open>
  Four epochs with \<open>lr = 27\<close> and \<open>decay = 2\<close> in the framework that shows the rate:
  the rates are \<open>27\<close>, \<open>9\<close>, \<open>9\<close> and \<open>3\<close>, and the network returned holds the
  last of them.
\<close>

theorem train_lr_schedule_witness:
  "(2::int) \<noteq> 0 \<and> loader_len dl1 \<noteq> 0 \<and>
   train T1 dl1 0 4 27 2 =
     Inr (3, [\<lparr>log_epoch = 1, log_loss = 27, log_lr = 27\<rparr>,
              \<lparr>log_epoch = 2, log_loss = 9, log_lr = 9\<rparr>,
              \<lparr>log_epoch = 3, log_loss = 9, log_lr = 9\<rparr>,
              \<lparr>log_epoch = 4, log_loss = 3, log_lr = 3\<rparr>]) \<and>
   trained T1 dl1 27 2 0 4 = 3 \<and>
   map (epoch_rate 27 2) [1, 2, 3, 4] = [27, 9, 9, 3]"
proof -
  have d: "(2::int) \<noteq> 0" by simp
  have l: "loader_len dl1 \<noteq> 0" by (simp add: dl1_def)
  have up: "[1..4] = [1, 2, 3, 4 :: int]" by (simp add: upto.simps)
  have run: "train T1 dl1 0 4 27 2 =
     Inr (3, [\<lparr>log_epoch = 1, log_loss = 27, log_lr = 27\<rparr>,
              \<lparr>log_epoch = 2, log_loss = 9, log_lr = 9\<rparr>,
              \<lparr>log_epoch = 3, log_loss = 9, log_lr = 9\<rparr>,
              \<lparr>log_epoch = 4, log_loss = 3, log_lr = 3\<rparr>])"
    unfolding train_def up by (simp add: T1_def dl1_def arith_27)
  from train_lr_schedule [OF d l, of T1 0 4 27] obtain logs where
    t: "train T1 dl1 0 4 27 2 = Inr (trained T1 dl1 27 2 0 (nat 4), logs)" and
    r: "\<And>e. 1 \<le> e \<Longrightarrow> e \<le> 4 \<Longrightarrow> epoch_rate 27 2 e =
                (let before = (if e = 1 then 27 else epoch_rate 27 2 (e - 1))
                 in if e mod 2 = 0 then fdiv before 3 else before)"
    by blast
  from t run have tr: "trained T1 dl1 27 2 0 4 = 3" by simp
  from r [of 1] have r1: "epoch_rate 27 2 1 = 27" by simp
  from r [of 2] r1 have r2: "epoch_rate 27 2 2 = 9" by (simp add: arith_27)
  from r [of 3] r2 have r3: "epoch_rate 27 2 3 = 9" by simp
  from r [of 4] r3 have r4: "epoch_rate 27 2 4 = 3" by (simp add: arith_27)
  from r1 r2 r3 r4 have rs: "map (epoch_rate 27 2) [1, 2, 3, 4] = [27, 9, 9, 3]" by simp
  from d l run tr rs show ?thesis by (intro conjI)
qed

text \<open>
  C1 as stated fails: with \<open>lr = 0.001\<close> and \<open>decay = 1\<close> both epochs \<open>1\<close> and \<open>2\<close>
  are multiples of \<open>decay\<close>, and the rate the optimiser of epoch \<open>2\<close> is built with,
  which the network returned holds, is \<^verbatim>\<open>0.001 / 3 / 3\<close>: neither \<open>0.001\<close> divided by
  \<open>3\<^sup>2\<close> nor the double \<^verbatim>\<open>0.001 / 3 ** 2\<close>.
\<close>

theorem train_lr_schedule_counterexample:
  "train T1 dl1 0 2 (rd (1 / 1000)) 1 =
     Inr (8198552921648689 / 73786976294838206464,
          [\<lparr>log_epoch = 1, log_loss = rd (3333 / 10000000), log_lr = rd (333 / 1000000)\<rparr>,
           \<lparr>log_epoch = 2, log_loss = rd (1111 / 10000000), log_lr = rd (111 / 1000000)\<rparr>]) \<and>
   multiples_upto 1 2 = 2 \<and>
   (8198552921648689 / 73786976294838206464 :: real) \<noteq> rd (1 / 1000) / 3 ^ 2 \<and>
   (8198552921648689 / 73786976294838206464 :: real) \<noteq> fdiv (rd (1 / 1000)) (3 ^ 2)"
proof -
  have up: "[1..2] = [1, 2 :: int]" by (simp add: upto.simps)
  have run: "train T1 dl1 0 2 (rd (1 / 1000)) 1 =
     Inr (8198552921648689 / 73786976294838206464,
          [\<lparr>log_epoch = 1, log_loss = rd (3333 / 10000000), log_lr = rd (333 / 1000000)\<rparr>,
           \<lparr>log_epoch = 2, log_loss = rd (1111 / 10000000), log_lr = rd (111 / 1000000)\<rparr>])"
    unfolding train_def up by (simp add: T1_def dl1_def arith_thousandth arith_27(6,7) Let_def)
  have m: "multiples_upto 1 2 = 2" by (simp add: multiples_upto_filter up)
  from run m arith_thousandth(13,14) show ?thesis
    unfolding arith_thousandth(1) by (intro conjI)
qed

text \<open>
  C2, as amended. With a non-zero \<open>decay\<close> and a loader of at least one batch,
  \<open>train\<close> returns, with one log entry for each of the epochs \<open>1, \<dots>, epochs\<close>. The
  loss logged for epoch \<open>e\<close> is made of the losses the training steps of that epoch
  return, one for every batch of the loader: they are added in double arithmetic, one
  after another and starting from \<open>0.0\<close>, the sum is divided by \<^verbatim>\<open>len(trainloader)\<close>,
  the number of batches, and the quotient is rounded to seven digits after the decimal
  point by \<^verbatim>\<open>float('%.7f' % tot_loss)\<close>.
\<close>

theorem train_logged_loss:
  assumes "decay \<noteq> 0" and "loader_len trainloader \<noteq> 0"
  shows "\<exists>net' logs.
           train T trainloader net0 epochs lr decay = Inr (net', logs) \<and>
           length logs = nat epochs \<and>
           (\<forall>e. 1 \<le> e \<and> e \<le> epochs \<longrightarrow>
              log_epoch (logs ! nat (e - 1)) = e \<and>
              length (epoch_losses T trainloader lr decay net0 e) =
                length (loader_iter trainloader e) \<and>
              log_loss (logs ! nat (e - 1)) =
                float_of_fmt 7
                  (fdiv (float_sum (epoch_losses T trainloader lr decay net0 e))
                     (float_of_nat (loader_len trainloader))))"
proof -
  define logs where "logs = map (epoch_entry T trainloader lr decay net0) [1..epochs]"
  have run: "train T trainloader net0 epochs lr decay =
      Inr (trained T trainloader lr decay net0 (nat epochs), logs)"
    unfolding logs_def by (rule train_runs [OF assms])
  have len: "length logs = nat epochs" unfolding logs_def by simp
  have each: "log_epoch (logs ! nat (e - 1)) = e \<and>
              length (epoch_losses T trainloader lr decay net0 e) =
                length (loader_iter trainloader e) \<and>
              log_loss (logs ! nat (e - 1)) =
                float_of_fmt 7
                  (fdiv (float_sum (epoch_losses T trainloader lr decay net0 e))
                     (float_of_nat (loader_len trainloader)))"
    if e: "1 \<le> e" "e \<le> epochs" for e
  proof -
    from e have i: "nat (e - 1) < length [1..epochs]" and nth: "[1..epochs] ! nat (e - 1) = e"
      by simp_all
    have c: "logs ! nat (e - 1) = epoch_entry T trainloader lr decay net0 e"
      unfolding logs_def using nth_map [OF i, of "epoch_entry T trainloader lr decay net0"] nth
      by simp
    have l: "length (epoch_losses T trainloader lr decay net0 e) = length (loader_iter trainloader e)"
      unfolding epoch_losses_def by (rule length_run_batches)
    from c l show ?thesis by (simp add: epoch_entry_def)
  qed
  from run len each show ?thesis by blast
qed

text \<open>
  One epoch on the loader of the two batches \<open>0.0009765625\<close> and \<open>0.0029296875\<close>: the
  log holds \<^verbatim>\<open>0.0019531\<close>.
\<close>

theorem train_logged_loss_witness:
  "(5000::int) \<noteq> 0 \<and> loader_len dl0 \<noteq> 0 \<and>
   train T0 dl0 () 1 (rd (1 / 1000)) 5000 =
     Inr ((), [\<lparr>log_epoch = 1, log_loss = rd (19531 / 10000000), log_lr = rd (1 / 1000)\<rparr>]) \<and>
   epoch_losses T0 dl0 (rd (1 / 1000)) 5000 () 1 = [1 / 1024, 3 / 1024] \<and>
   float_of_fmt 7 (fdiv (float_sum [1 / 1024, 3 / 1024]) (float_of_nat 2)) = rd (19531 / 10000000)"
proof -
  have d: "(5000::int) \<noteq> 0" by simp
  have l: "loader_len dl0 \<noteq> 0" by (simp add: dl0_def)
  have run: "train T0 dl0 () 1 (rd (1 / 1000)) 5000 =
     Inr ((), [\<lparr>log_epoch = 1, log_loss = rd (19531 / 10000000), log_lr = rd (1 / 1000)\<rparr>])"
    unfolding train_def
    by (simp add: T0_def dl0_def arith_losses arith_thousandth(1,12))
  have ls: "epoch_losses T0 dl0 (rd (1 / 1000)) 5000 () 1 = [1 / 1024, 3 / 1024]"
    by (simp add: epoch_losses_def T0_def dl0_def)
  have len: "loader_len dl0 = 2" by (simp add: dl0_def)
  from train_logged_loss [OF d l, of T0 "()" 1 "rd (1 / 1000)"] obtain net' logs where
    t: "train T0 dl0 () 1 (rd (1 / 1000)) 5000 = Inr (net', logs)" and
    e: "\<And>e. 1 \<le> e \<Longrightarrow> e \<le> 1 \<Longrightarrow> log_loss (logs ! nat (e - 1)) =
                float_of_fmt 7
                  (fdiv (float_sum (epoch_losses T0 dl0 (rd (1 / 1000)) 5000 () e))
                     (float_of_nat (loader_len dl0)))"
    by blast
  from t run have "logs = [\<lparr>log_epoch = 1, log_loss = rd (19531 / 10000000), log_lr = rd (1 / 1000)\<rparr>]"
    by simp
  with e [of 1] have "rd (19531 / 10000000) =
      float_of_fmt 7 (fdiv (float_sum (epoch_losses T0 dl0 (rd (1 / 1000)) 5000 () 1))
                     (float_of_nat (loader_len dl0)))"
    by simp
  then have f: "float_of_fmt 7 (fdiv (float_sum [1 / 1024, 3 / 1024]) (float_of_nat 2)) =
      rd (19531 / 10000000)"
    unfolding ls len by simp
  from d l run ls f show ?thesis by (intro conjI)
qed

text \<open>
  C2 as stated fails: the two batch losses \<open>0.0009765625\<close> and \<open>0.0029296875\<close> have
  the mean \<open>0.001953125\<close>, a double, and the loss logged is the double \<^verbatim>\<open>0.0019531\<close>.
\<close>

theorem train_logged_loss_counterexample:
  "train T0 dl0 () 1 (rd (1 / 1000)) 5000 =
     Inr ((), [\<lparr>log_epoch = 1, log_loss = 9007083962590531 / 4611686018427387904,
                 log_lr = rd (1 / 1000)\<rparr>]) \<and>
   loader_iter dl0 1 = [1 / 1024, 3 / 1024] \<and>
   (9007083962590531 / 4611686018427387904 :: real) \<noteq> (1 / 1024 + 3 / 1024) / 2"
proof -
  have run: "train T0 dl0 () 1 (rd (1 / 1000)) 5000 =
     Inr ((), [\<lparr>log_epoch = 1, log_loss = 9007083962590531 / 4611686018427387904,
                 log_lr = rd (1 / 1000)\<rparr>])"
    unfolding train_def
    by (simp add: T0_def dl0_def arith_losses arith_thousandth(1,12))
  have "loader_iter dl0 1 = [1 / 1024, 3 / 1024]" by (simp add: dl0_def)
  moreover have "(9007083962590531 / 4611686018427387904 :: real) \<noteq> (1 / 1024 + 3 / 1024) / 2"
    by simp
  ultimately show ?thesis using run by (intro conjI)
qed

text \<open>
  The runs the two results above leave out: with at least one epoch to run, training
  raises ZeroDivisionError in its first epoch when \<open>decay\<close> is zero or the loader has no
  batch.
\<close>

theorem train_zero_division:
  assumes "1 \<le> epochs" and "decay = 0 \<or> loader_len trainloader = 0"
  shows "train T trainloader net0 epochs lr decay = Inl ZeroDivisionError"
proof -
  from assms(1) have "[1..epochs] = 1 # [2..epochs]" by (simp add: upto_rec1)
  with assms(2) show ?thesis
    by (auto simp: train_def Let_def split: prod.splits)
qed

text \<open>Three epochs with \<open>decay = 0\<close>.\<close>

theorem train_zero_division_witness:
  "(1::int) \<le> 3 \<and> ((0::int) = 0 \<or> loader_len dl0 = 0) \<and>
   train T0 dl0 () 3 (1 / 1000) 0 = Inl ZeroDivisionError"
proof -
  have a: "(1::int) \<le> 3" by simp
  have b: "(0::int) = 0 \<or> loader_len dl0 = 0" by simp
  from train_zero_division [OF a b] a b show ?thesis by simp
qed

section \<open>Prediction and accuracy\<close>

text \<open>
  The scan keeps the first largest entry of what it has seen: \<open>pre\<close> is the part of the
  row already scanned.
\<close>

lemma argmax_from_scan:
  assumes "i = length pre" and "best < i" and "v = pre ! best"
    and "\<forall>j<i. pre ! j \<le> v" and "\<forall>j<best. pre ! j < v"
  shows "is_argmax (pre @ xs) (argmax_from best v i xs)"
  using assms
proof (induction xs arbitrary: pre best v i)
  case Nil
  then show ?case by (simp add: is_argmax_def)
next
  case (Cons x xs)
  show ?case
  proof (cases "v < x")
    case True
    have "is_argmax ((pre @ [x]) @ xs) (argmax_from i x (Suc i) xs)"
    proof (rule Cons.IH)
      show "Suc i = length (pre @ [x])" using Cons.prems by simp
      show "i < Suc i" by simp
      show "x = (pre @ [x]) ! i" using Cons.prems by simp
      show "\<forall>j<Suc i. (pre @ [x]) ! j \<le> x"
        using Cons.prems True by (auto simp: nth_append less_Suc_eq intro: order.trans less_imp_le)
      show "\<forall>j<i. (pre @ [x]) ! j < x"
        using Cons.prems True by (auto simp: nth_append intro: le_less_trans)
    qed
    with True show ?thesis by simp
  next
    case False
    have "is_argmax ((pre @ [x]) @ xs) (argmax_from best v (Suc i) xs)"
    proof (rule Cons.IH)
      show "Suc i = length (pre @ [x])" using Cons.prems by simp
      show "best < Suc i" using Cons.prems by simp
      show "v = (pre @ [x]) ! best" using Cons.prems by (simp add: nth_append)
      show "\<forall>j<Suc i. (pre @ [x]) ! j \<le> v"
        using Cons.prems False by (auto simp: nth_append less_Suc_eq)
      show "\<forall>j<best. (pre @ [x]) ! j < v"
        using Cons.prems by (auto simp: nth_append)
    qed
    with False show ?thesis by simp
  qed
qed

lemma np_argmax_correct:
  assumes "row \<noteq> []"
  shows "\<exists>k. np_argmax row = Inr k \<and> is_argmax row k"
proof -
  from assms obtain x xs where row: "row = x # xs" by (cases row) auto
  have "is_argmax ([x] @ xs) (argmax_from 0 x 1 xs)"
    by (rule argmax_from_scan) simp_all
  with row show ?thesis by (simp add: np_argmax_def)
qed

lemma argmax_axis1_correct:
  assumes "[] \<notin> set out"
  shows "\<exists>labels. argmax_axis1 out = Inr labels \<and> length labels = length out \<and>
           (\<forall>i<length out. is_argmax (out ! i) (labels ! i))"
  using assms
proof (induction out)
  case Nil
  then show ?case by simp
next
  case (Cons row rest)
  from Cons.prems have "row \<noteq> []" by auto
  from np_argmax_correct [OF this] obtain k where k: "np_argmax row = Inr k" "is_argmax row k"
    by blast
  from Cons obtain ks where ks: "argmax_axis1 rest = Inr ks" "length ks = length rest"
    "\<forall>i<length rest. is_argmax (rest ! i) (ks ! i)" by auto
  have "\<forall>i<length (row # rest). is_argmax ((row # rest) ! i) ((k # ks) ! i)"
    using k(2) ks(3) by (auto simp: nth_Cons split: nat.splits)
  with k(1) ks(1,2) show ?case by simp
qed

lemma predict_rows:
  assumes "network inputs = Inr out" and "[] \<notin> set out"
  shows "\<exists>labels. predict network inputs = Inr labels \<and> length labels = length out \<and>
           (\<forall>i<length out. is_argmax (out ! i) (labels ! i))"
  using argmax_axis1_correct [OF assms(2)] assms(1) by (simp add: predict_def)

text \<open>
  C3. When the network returns a matrix with one row for every input row and at least
  one column, \<open>predict\<close> returns one label for every input row, and the label of a row is
  the index of the largest entry of the network's output row for that input (the first
  such index).
\<close>

theorem predict_argmax:
  assumes "network inputs = Inr out" and "length out = length inputs" and "[] \<notin> set out"
  shows "\<exists>labels. predict network inputs = Inr labels \<and> length labels = length inputs \<and>
           (\<forall>i<length inputs. is_argmax (out ! i) (labels ! i))"
  using predict_rows [of network inputs out] assms by simp

text \<open>A row has one such label only.\<close>

lemma is_argmax_unique: "is_argmax row k \<Longrightarrow> is_argmax row k' \<Longrightarrow> k = k'"
  unfolding is_argmax_def by (metis linorder_neqE_nat not_less)

text \<open>Two rows, the second with a tie between its first two entries.\<close>

theorem predict_argmax_witness:
  "echo_net [[1, 3, 2], [5, 5, 0]] = Inr [[1, 3, 2], [5, 5, 0]] \<and>
   length [[1, 3, 2], [5, 5, 0 :: real]] = length [[1, 3, 2], [5, 5, 0 :: real]] \<and>
   [] \<notin> set [[1, 3, 2], [5, 5, 0 :: real]] \<and>
   predict echo_net [[1, 3, 2], [5, 5, 0]] = Inr [1, 0] \<and>
   is_argmax [1, 3, 2] 1 \<and> is_argmax [5, 5, 0] 0"
proof -
  have a: "echo_net [[1, 3, 2], [5, 5, 0]] = Inr [[1, 3, 2], [5, 5, 0]]" by (simp add: echo_net_def)
  have b: "length [[1, 3, 2], [5, 5, 0 :: real]] = length [[1, 3, 2], [5, 5, 0 :: real]]" by simp
  have c: "[] \<notin> set [[1, 3, 2], [5, 5, 0 :: real]]" by simp
  from predict_argmax [of echo_net "[[1, 3, 2], [5, 5, 0]]" "[[1, 3, 2], [5, 5, 0]]"] a b c
  obtain labels where
    p: "predict echo_net [[1, 3, 2], [5, 5, 0]] = Inr labels" and
    m: "\<forall>i<2. is_argmax ([[1, 3, 2], [5, 5, 0]] ! i) (labels ! i)"
    by auto
  have "predict echo_net [[1, 3, 2], [5, 5, 0]] = Inr [1, 0]"
    by (simp add: predict_def echo_net_def np_argmax_def)
  with p have "labels = [1, 0]" by simp
  with m [rule_format, of 0] m [rule_format, of 1]
  have "is_argmax [1, 3, 2] 1 \<and> is_argmax [5, 5, 0] 0" by simp
  with a c \<open>predict echo_net [[1, 3, 2], [5, 5, 0]] = Inr [1, 0]\<close> show ?thesis by simp
qed





section \<open>Checkpoints\<close>

lemma same_architecture_keys:
  assumes "same_architecture a b"
  shows "set (map fst a) = set (map fst b)"
proof -
  have "(map_of a k = None) = (map_of b k = None)" for k
    using assms [unfolded same_architecture_def, rule_format, of k]
    by (cases "map_of a k"; cases "map_of b k") auto
  then have "dom (map_of a) = dom (map_of b)" by (auto simp: dom_def)
  then show ?thesis by (simp add: dom_map_of_conv_image_fst)
qed

lemma map_of_map_items:
  "map_of (map (\<lambda>(k, v). (k, f k v)) xs) k = map_option (f k) (map_of xs k)"
  by (induction xs) auto

text \<open>
  A state dict of the module's architecture is accepted, and the module then holds its
  contents, under its own keys in their order and on its own devices.
\<close>

lemma load_state_dict_same_architecture:
  assumes "same_architecture sd model"
  shows "\<exists>model'. load_state_dict model sd = Inr model' \<and>
           contents model' = contents sd \<and>
           map fst model' = map fst model \<and>
           (\<forall>k. map_option device (map_of model' k) = map_option device (map_of model k))"
proof -
  from assms have keys: "set (map fst sd) = set (map fst model)" by (rule same_architecture_keys)
  from assms have sh: "map_option shape (map_of sd k) = map_option shape (map_of model k)" for k
    by (simp add: same_architecture_def)
  define copy :: "string \<Rightarrow> tensor \<Rightarrow> tensor" where "copy = (\<lambda>k own. case map_of sd k of
                                        Some given \<Rightarrow> own\<lparr>entries := entries given\<rparr>
                                      | None \<Rightarrow> own)"
  define model' where "model' = map (\<lambda>(k, own). (k, copy k own)) model"
  have l: "load_state_dict model sd = Inr model'"
    using keys sh by (simp add: load_state_dict_def model'_def copy_def list_ex_iff)
  have look: "map_of model' k = map_option (copy k) (map_of model k)" for k
    unfolding model'_def by (rule map_of_map_items)
  have c: "contents model' k = contents sd k" for k
  proof (cases "map_of sd k")
    case None
    with sh [of k] have "map_of model k = None" by simp
    with None show ?thesis by (simp add: contents_def look)
  next
    case (Some given)
    with sh [of k] obtain own where own: "map_of model k = Some own"
      by (cases "map_of model k") auto
    with Some sh [of k] show ?thesis by (simp add: contents_def look copy_def)
  qed
  have dv: "map_option device (map_of model' k) = map_option device (map_of model k)" for k
    by (cases "map_of model k"; cases "map_of sd k") (simp_all add: look copy_def)
  have ks: "map fst model' = map fst model"
    unfolding model'_def by (induction model) auto
  from l c dv ks show ?thesis by auto
qed

text \<open>The branch of \<open>load_model\<close> on \<open>cuda_flag\<close> reads back what the file holds.\<close>

lemma torch_load_saved:
  assumes "files fs p = Some sd"
  shows "\<exists>sd'. (if cuda_flag self then torch_load (cuda_flag self) fs p None
                else torch_load (cuda_flag self) fs p (Some CPU)) = Inr sd' \<and>
           contents sd' = contents sd"
proof (cases "cuda_flag self")
  case True
  with assms show ?thesis by (simp add: torch_load_def)
next
  case False
  have "contents (map (\<lambda>(k, t). (k, t\<lparr>device := CPU\<rparr>)) sd) k = contents sd k" for k
    by (cases "map_of sd k") (simp_all add: contents_def map_of_map_items)
  then have "contents (map (\<lambda>(k, t). (k, t\<lparr>device := CPU\<rparr>)) sd) = contents sd" by auto
  with False assms show ?thesis by (simp add: torch_load_def)
qed

lemma contents_same_architecture:
  assumes c: "contents a = contents b" and s: "same_architecture b c"
  shows "same_architecture a c"
proof -
  have "map_option shape (map_of a k) = map_option shape (map_of b k)" for k
  proof -
    from c have "contents a k = contents b k" by simp
    then show ?thesis by (cases "map_of a k"; cases "map_of b k") (auto simp: contents_def)
  qed
  with s show ?thesis by (simp add: same_architecture_def)
qed

text \<open>
  C7. For every path that can be written, \<open>save_model\<close> on one trainer followed by
  \<open>load_model\<close> of the same path on a trainer of the same architecture succeeds and leaves
  the second trainer's network with the saved state dict: under every key the saved shape
  and entries, and no other key. The keys keep their order, the tensors stay on the
  devices of the loading network, and its \<open>cuda_flag\<close> is unchanged.
\<close>

theorem checkpoint_round_trip:
  assumes "writable fs p" and "same_architecture (net saver) (net loader)"
  shows "\<exists>fs' loader'.
           save_model saver p None fs = Inr fs' \<and>
           load_model loader p None fs' = Inr (loader', None) \<and>
           contents (net loader') = contents (net saver) \<and>
           map fst (net loader') = map fst (net loader) \<and>
           cuda_flag loader' = cuda_flag loader \<and>
           (\<forall>k. map_option device (map_of (net loader') k) =
                map_option device (map_of (net loader) k))"
proof -
  define fs' where "fs' = fs\<lparr>files := (files fs)(p \<mapsto> net saver)\<rparr>"
  have sv: "save_model saver p None fs = Inr fs'"
    using assms(1) by (simp add: save_model_def torch_save_def fs'_def)
  have f: "files fs' p = Some (net saver)" by (simp add: fs'_def)
  from torch_load_saved [OF f, of loader] obtain sd where
    ld: "(if cuda_flag loader then torch_load (cuda_flag loader) fs' p None
          else torch_load (cuda_flag loader) fs' p (Some CPU)) = Inr sd" and
    c: "contents sd = contents (net saver)"
    by blast
  from contents_same_architecture [OF c assms(2)] have "same_architecture sd (net loader)" .
  from load_state_dict_same_architecture [OF this] obtain model' where
    l: "load_state_dict (net loader) sd = Inr model'" and
    c': "contents model' = contents sd" and
    ks: "map fst model' = map fst (net loader)" and
    dv: "\<forall>k. map_option device (map_of model' k) = map_option device (map_of (net loader) k)"
    by blast
  have "load_model loader p None fs' = Inr (loader\<lparr>net := model'\<rparr>, None)"
    using ld l by (simp add: load_model_def)
  with sv c c' ks dv show ?thesis by auto
qed

text \<open>Saved from the CUDA trainer, loaded into the CPU one.\<close>

theorem checkpoint_round_trip_witness:
  "writable fs0 ''model_LSTM.pth'' \<and> same_architecture (net saver0) (net loader0) \<and>
   (\<exists>fs' loader'.
      save_model saver0 ''model_LSTM.pth'' None fs0 = Inr fs' \<and>
      load_model loader0 ''model_LSTM.pth'' None fs' = Inr (loader', None) \<and>
      contents (net loader') = contents (net saver0)) \<and>
   load_model loader0 ''model_LSTM.pth'' None
       (fs0\<lparr>files := (files fs0)(''model_LSTM.pth'' \<mapsto> net saver0)\<rparr>) =
     Inr (\<lparr>net = [(''fc.weight'', \<lparr>device = CPU, shape = [1, 2], entries = [1, 2]\<rparr>),
                  (''fc.bias'', \<lparr>device = CPU, shape = [1], entries = [3]\<rparr>)],
           cuda_flag = False\<rparr>, None)"
proof -
  have w: "writable fs0 ''model_LSTM.pth''" by (simp add: fs0_def)
  have a: "same_architecture (net saver0) (net loader0)"
    by (simp add: same_architecture_def saver0_def loader0_def)
  from checkpoint_round_trip [OF w a] have "\<exists>fs' loader'.
      save_model saver0 ''model_LSTM.pth'' None fs0 = Inr fs' \<and>
      load_model loader0 ''model_LSTM.pth'' None fs' = Inr (loader', None) \<and>
      contents (net loader') = contents (net saver0)"
    by blast
  moreover have "load_model loader0 ''model_LSTM.pth'' None
       (fs0\<lparr>files := (files fs0)(''model_LSTM.pth'' \<mapsto> net saver0)\<rparr>) =
     Inr (\<lparr>net = [(''fc.weight'', \<lparr>device = CPU, shape = [1, 2], entries = [1, 2]\<rparr>),
                  (''fc.bias'', \<lparr>device = CPU, shape = [1], entries = [3]\<rparr>)],
           cuda_flag = False\<rparr>, None)"
    by (simp add: load_model_def torch_load_def load_state_dict_def saver0_def loader0_def fs0_def)
  ultimately show ?thesis using w a by (intro conjI)
qed

section \<open>Loading and splitting the data\<close>

lemma slice_append: "slice_to xs k @ slice_from xs k = xs"
  by (simp add: slice_to_def slice_from_def)

lemma slice_lengths:
  assumes "0 \<le> t" and "t \<le> int (length xs)"
  shows "length (slice_to xs (- t)) = (if t = 0 then 0 else length xs - nat t)"
    and "length (slice_from xs (- t)) = (if t = 0 then length xs else nat t)"
  using assms by (auto simp: slice_to_def slice_from_def)

text \<open>For an accepted \<open>test_split\<close> the test size of a tree lies between \<open>0\<close> and its length.\<close>

lemma test_size_bounds:
  assumes "0 \<le> test_split" and "test_split \<le> rd (3 / 10)"
  shows "0 \<le> test_size_of n test_split" and "test_size_of n test_split \<le> int n"
proof -
  define n' where "n' = float_of_nat n"
  have n0: "0 \<le> n'" unfolding n'_def float_of_nat_def by (rule rd_nonneg) simp
  have n1: "n' \<le> 3 / 2 * real n + 1 / 2"
    unfolding n'_def float_of_nat_def by (rule rd_upper) simp
  have p0: "0 \<le> n' * test_split" using n0 assms(1) by simp
  from assms(2) rd_three_tenths(1) have ts: "test_split \<le> 3 / 10" by simp
  have "n' * test_split \<le> n' * (3 / 10)" using n0 ts by (rule mult_left_mono [rotated])
  also have "\<dots> \<le> (3 / 2 * real n + 1 / 2) * (3 / 10)" using n1 by simp
  finally have p1: "n' * test_split \<le> (3 / 2 * real n + 1 / 2) * (3 / 10)" .
  have r0: "0 \<le> fmul n' test_split" unfolding fmul_def using p0 by (rule rd_nonneg)
  have "fmul n' test_split \<le> 3 / 2 * (n' * test_split) + 1 / 2"
    unfolding fmul_def using p0 by (rule rd_upper)
  with p1 have r1: "fmul n' test_split < real n + 1" by simp
  from r0 show "0 \<le> test_size_of n test_split"
    by (simp add: test_size_of_def py_int_def n'_def)
  from r1 have "\<lfloor>fmul n' test_split\<rfloor> \<le> int n" by (simp add: floor_le_iff)
  with r0 show "test_size_of n test_split \<le> int n"
    by (simp add: test_size_of_def py_int_def n'_def)
qed

lemma rng_ok_shuffle: "rng_ok R \<Longrightarrow> mset (fst (shuffle R g xs)) = mset xs"
  by (simp add: rng_ok_def)

lemma rng_ok_shuffle_length: "rng_ok R \<Longrightarrow> length (fst (shuffle R g xs)) = length xs"
  using rng_ok_shuffle [of R g xs] by (metis size_mset)

lemma rng_ok_permutation: "rng_ok R \<Longrightarrow> mset (fst (permutation R g n)) = mset [0..<n]"
  by (simp add: rng_ok_def)

text \<open>The loop over the two trees, unfolded.\<close>

lemma tree_loop_two:
  "tree_loop R ts (zip [0..<length [np_array A, np_array B]] [np_array A, np_array B])
     \<lparr>X_train = [], Y_train = [], X_test = [], Y_test = []\<rparr> g0 =
   (let A' = fst (shuffle R g0 A); g1 = snd (shuffle R g0 A);
        B' = fst (shuffle R g1 B); g2 = snd (shuffle R g1 B);
        ta = test_size_of (length A') ts; tb = test_size_of (length B') ts
    in (\<lparr>X_train = [\<lparr>ndim = (if A = [] then 1 else 2), rows = slice_to A' (- ta)\<rparr>,
                     \<lparr>ndim = (if B = [] then 1 else 2), rows = slice_to B' (- tb)\<rparr>],
         Y_train = [replicate (nat (int (length A') - ta)) 0,
                     replicate (nat (int (length B') - tb)) 1],
         X_test = [\<lparr>ndim = (if A = [] then 1 else 2), rows = slice_from A' (- ta)\<rparr>,
                    \<lparr>ndim = (if B = [] then 1 else 2), rows = slice_from B' (- tb)\<rparr>],
         Y_test = [replicate (nat ta) 0, replicate (nat tb) 1]\<rparr>, g2))"
  by (simp add: split_tree_def np_array_def Let_def split: prod.splits)

text \<open>
  What the concatenations and the two length assertions make of the two trees \<open>A\<close> and
  \<open>B\<close>: a ValueError when one tree alone is empty, an AssertionError when both have
  entries and one of them a test size of zero, and the train and test arrays otherwise.
\<close>

lemma assemble_two:
  fixes R :: "('g, 'a) np_random" and A B :: "'a list" and g0 :: 'g and ts :: real
  assumes ok: "rng_ok R" and range: "0 \<le> ts" "ts \<le> rd (3 / 10)"
  defines "A' \<equiv> fst (shuffle R g0 A)"
  defines "g1 \<equiv> snd (shuffle R g0 A)"
  defines "B' \<equiv> fst (shuffle R g1 B)"
  defines "ta \<equiv> test_size_of (length A) ts"
  defines "tb \<equiv> test_size_of (length B) ts"
  shows "assemble (fst (tree_loop R ts (zip [0..<length [np_array A, np_array B]] [np_array A, np_array B])
            \<lparr>X_train = [], Y_train = [], X_test = [], Y_test = []\<rparr> g0)) =
     (if (A = []) \<noteq> (B = []) then Inl ValueError
      else if A \<noteq> [] \<and> (ta = 0 \<or> tb = 0) then Inl AssertionError
      else Inr ((slice_to A' (- ta) @ slice_to B' (- tb),
                 replicate (length (slice_to A' (- ta))) 0 @ replicate (length (slice_to B' (- tb))) 1),
                (slice_from A' (- ta) @ slice_from B' (- tb),
                 replicate (length (slice_from A' (- ta))) 0 @ replicate (length (slice_from B' (- tb))) 1)))"
proof -
  have lA: "length A' = length A" unfolding A'_def by (rule rng_ok_shuffle_length [OF ok])
  have lB: "length B' = length B" unfolding B'_def by (rule rng_ok_shuffle_length [OF ok])
  have ta: "0 \<le> ta" "ta \<le> int (length A')"
    unfolding ta_def lA by (rule test_size_bounds [OF range])+
  have tb: "0 \<le> tb" "tb \<le> int (length B')"
    unfolding tb_def lB by (rule test_size_bounds [OF range])+
  note sl = slice_lengths [OF ta] slice_lengths [OF tb]
  have tl: "fst (tree_loop R ts (zip [0..<length [np_array A, np_array B]] [np_array A, np_array B])
            \<lparr>X_train = [], Y_train = [], X_test = [], Y_test = []\<rparr> g0) =
     \<lparr>X_train = [\<lparr>ndim = (if A = [] then 1 else 2), rows = slice_to A' (- ta)\<rparr>,
                     \<lparr>ndim = (if B = [] then 1 else 2), rows = slice_to B' (- tb)\<rparr>],
         Y_train = [replicate (nat (int (length A') - ta)) 0,
                     replicate (nat (int (length B') - tb)) 1],
         X_test = [\<lparr>ndim = (if A = [] then 1 else 2), rows = slice_from A' (- ta)\<rparr>,
                    \<lparr>ndim = (if B = [] then 1 else 2), rows = slice_from B' (- tb)\<rparr>],
         Y_test = [replicate (nat ta) 0, replicate (nat tb) 1]\<rparr>"
    unfolding tree_loop_two by (simp add: Let_def A'_def B'_def g1_def ta_def tb_def lA [unfolded A'_def] lB [unfolded B'_def g1_def])
  have A0: "A = [] \<Longrightarrow> ta = 0 \<and> A' = []" using ta lA by auto
  have B0: "B = [] \<Longrightarrow> tb = 0 \<and> B' = []" using tb lB by auto
  show ?thesis
  proof (cases "(A = []) \<noteq> (B = [])")
    case True
    then show ?thesis unfolding tl by (auto simp: assemble_def np_concatenate_def)
  next
    case same: False
    show ?thesis
    proof (cases "A = []")
      case True
      with same have "B = []" by simp
      with True A0 B0 show ?thesis unfolding tl
        by (simp add: assemble_def np_concatenate_def slice_to_def slice_from_def)
    next
      case False
      with same have Bne: "B \<noteq> []" by simp
      from False lA have nA: "0 < length A'" by simp
      from Bne lB have nB: "0 < length B'" by simp
      show ?thesis
      proof (cases "ta = 0 \<or> tb = 0")
        case True
        then show ?thesis unfolding tl using False Bne nA nB ta tb
          by (auto simp: assemble_def np_concatenate_def sl Let_def)
      next
        case F2: False
        with ta tb have "0 < ta" "0 < tb" by simp_all
        then show ?thesis unfolding tl using False Bne ta tb F2
          by (auto simp: assemble_def np_concatenate_def sl Let_def nat_diff_distrib')
      qed
    qed
  qed
qed

text \<open>Indexing with a permutation of the indices rearranges the array.\<close>

lemma np_take_permutation:
  assumes "mset p = mset [0..<length xs]"
  shows "np_take xs p = Inr (map (\<lambda>i. xs ! i) p)" and "mset (map (\<lambda>i. xs ! i) p) = mset xs"
proof -
  from assms have "set p = {0..<length xs}" by (metis mset_eq_setD set_upt)
  then show "np_take xs p = Inr (map (\<lambda>i. xs ! i) p)"
    by (auto simp: np_take_def list_all_iff)
  have "mset (map (\<lambda>i. xs ! i) p) = image_mset (\<lambda>i. xs ! i) (mset p)" by simp
  also have "\<dots> = mset (map (\<lambda>i. xs ! i) [0..<length xs])" unfolding assms by simp
  also have "\<dots> = mset xs" by (simp add: map_nth)
  finally show "mset (map (\<lambda>i. xs ! i) p) = mset xs" .
qed

lemma zip_np_take:
  assumes "mset p = mset [0..<length xs]" and "length ys = length xs"
  shows "zip (map (\<lambda>i. xs ! i) p) (map (\<lambda>i. ys ! i) p) = map (\<lambda>i. zip xs ys ! i) p"
proof -
  from assms(1) have "set p = {0..<length xs}" by (metis mset_eq_setD set_upt)
  then have "\<forall>i\<in>set p. i < length xs" by simp
  with assms(2) show ?thesis by (induction p) (simp_all)
qed

text \<open>
  The final shuffles succeed on arrays of matching lengths and keep the pairs of examples
  and labels.
\<close>

lemma shuffle_splits_ok:
  assumes ok: "rng_ok R" and l0: "length Y0 = length X0" and l1: "length Y1 = length X1"
  shows "\<exists>Xtr Ytr Xte Yte g'.
           shuffle_splits R ((X0, Y0), (X1, Y1)) g = (Inr ((Xtr, Ytr), (Xte, Yte)), g') \<and>
           length Ytr = length Xtr \<and> length Yte = length Xte \<and>
           mset (zip Xtr Ytr) = mset (zip X0 Y0) \<and> mset (zip Xte Yte) = mset (zip X1 Y1)"
proof -
  define p where "p = fst (permutation R g (length X0))"
  define g1 where "g1 = snd (permutation R g (length X0))"
  define q where "q = fst (permutation R g1 (length X1))"
  define g2 where "g2 = snd (permutation R g1 (length X1))"
  have p: "mset p = mset [0..<length X0]" unfolding p_def by (rule rng_ok_permutation [OF ok])
  have q: "mset q = mset [0..<length X1]" unfolding q_def by (rule rng_ok_permutation [OF ok])
  have pY: "mset p = mset [0..<length Y0]" using p l0 by simp
  have qY: "mset q = mset [0..<length Y1]" using q l1 by simp
  have pz: "mset p = mset [0..<length (zip X0 Y0)]" using p l0 by simp
  have qz: "mset q = mset [0..<length (zip X1 Y1)]" using q l1 by simp
  have run: "shuffle_splits R ((X0, Y0), (X1, Y1)) g =
      (Inr ((map (\<lambda>i. X0 ! i) p, map (\<lambda>i. Y0 ! i) p), (map (\<lambda>i. X1 ! i) q, map (\<lambda>i. Y1 ! i) q)), g2)"
    using np_take_permutation(1) [OF p] np_take_permutation(1) [OF pY]
      np_take_permutation(1) [OF q] np_take_permutation(1) [OF qY]
    unfolding p_def g1_def q_def g2_def shuffle_splits_def by (simp add: case_prod_beta)
  have "mset (zip (map (\<lambda>i. X0 ! i) p) (map (\<lambda>i. Y0 ! i) p)) = mset (zip X0 Y0)"
    using zip_np_take [OF p l0] np_take_permutation(2) [OF pz] by simp
  moreover have "mset (zip (map (\<lambda>i. X1 ! i) q) (map (\<lambda>i. Y1 ! i) q)) = mset (zip X1 Y1)"
    using zip_np_take [OF q l1] np_take_permutation(2) [OF qz] by simp
  ultimately show ?thesis using run by simp
qed

lemma zip_labelled:
  "zip (xs @ ys) (replicate (length xs) a @ replicate (length ys) b) =
     map (\<lambda>x. (x, a)) xs @ map (\<lambda>x. (x, b)) ys"
  by (simp add: zip_replicate2 map_prod_def) 

lemma get_dataset_in_range:
  assumes "0 \<le> ts" and "ts \<le> rd (3 / 10)"
  shows "fst (get_dataset R root2array conv sig_tree bkg_tree data_file ts w) =
     (let A = map conv (root2array data_file sig_tree);
          B = map conv (root2array data_file bkg_tree);
          tl = tree_loop R ts (zip [0..<length [np_array A, np_array B]] [np_array A, np_array B])
                 \<lparr>X_train = [], Y_train = [], X_test = [], Y_test = []\<rparr> (seed R 0)
      in case assemble (fst tl) of
           Inl e \<Rightarrow> Inl e
         | Inr s \<Rightarrow> fst (shuffle_splits R s (snd tl)))"
  using assms by (simp add: get_dataset_def Let_def split: prod.splits sum.splits)

text \<open>The reversing generator is one NumPy could be.\<close>

lemma R0_ok: "rng_ok R0"
  by (simp add: rng_ok_def R0_def)

text \<open>
  The test sizes of a tree of four and of a tree of five entries for the values of
  \<open>test_split\<close> used below.
\<close>

lemma test_sizes:
  "test_size_of 4 (1 / 5) = 0" "test_size_of 5 (1 / 5) = 1"
  "test_size_of 4 (3602879701896397 / 18014398509481984) = 0"
  "test_size_of 5 (3602879701896397 / 18014398509481984) = 1"
  "test_size_of 4 0 = 0" "test_size_of 5 0 = 0"
  "test_size_of 4 (3602879701896397 / 36028797018963968) = 0"
  "test_size_of 5 (3602879701896397 / 36028797018963968) = 0"
  "test_size_of 4 (1 / 4) = 1" "test_size_of 5 (1 / 4) = 1"
  by (simp_all add: test_size_of_def py_int_def fmul_def float_of_nat_def rd_def exponent_def pow2_def round_half_even_def compute_bitlen Let_def)



lemma four_five: "Suc (Suc (Suc (Suc 0))) = 4" "Suc (Suc (Suc (Suc (Suc 0)))) = 5"
  by simp_all

lemma test_sizes_Suc:
  "test_size_of (Suc (Suc (Suc (Suc 0)))) (1 / 5) = 0"
  "test_size_of (Suc (Suc (Suc (Suc (Suc 0))))) (1 / 5) = 1"
  "test_size_of (Suc (Suc (Suc (Suc 0)))) (3602879701896397 / 18014398509481984) = 0"
  "test_size_of (Suc (Suc (Suc (Suc (Suc 0))))) (3602879701896397 / 18014398509481984) = 1"
  "test_size_of (Suc (Suc (Suc (Suc 0)))) 0 = 0"
  "test_size_of (Suc (Suc (Suc (Suc (Suc 0))))) 0 = 0"
  "test_size_of (Suc (Suc (Suc (Suc 0)))) (3602879701896397 / 36028797018963968) = 0"
  "test_size_of (Suc (Suc (Suc (Suc (Suc 0))))) (3602879701896397 / 36028797018963968) = 0"
  "test_size_of (Suc (Suc (Suc (Suc 0)))) (1 / 4) = 1"
  "test_size_of (Suc (Suc (Suc (Suc (Suc 0))))) (1 / 4) = 1"
  unfolding four_five(2) unfolding four_five(1) by (rule test_sizes)+

text \<open>
  The product is rounded before it is truncated: \<^verbatim>\<open>int(6 * (1 / 6))\<close> is \<open>1\<close>, although
  the double \<^verbatim>\<open>1 / 6\<close> lies below \<open>1/6\<close>, and \<^verbatim>\<open>int(49 * (1 / 49))\<close> is \<open>0\<close>.
\<close>

lemma test_size_of_rounds:
  "test_size_of 6 (fdiv 1 6) = 1" "test_size_of 49 (fdiv 1 49) = 0"
  by (simp_all add: test_size_of_def py_int_def fdiv_def fmul_def float_of_nat_def rd_def
      exponent_def pow2_def round_half_even_def compute_bitlen Let_def)

text \<open>
  C5. Two calls of \<open>get_dataset\<close> on the same trees with the same \<open>test_split\<close> return the
  same train and test arrays (or raise the same exception), whatever the state of the
  random generator and whatever had been read before either call: the generator is
  reseeded with \<open>0\<close> before it is used.
\<close>

theorem get_dataset_deterministic:
  "fst (get_dataset R root2array conv sig_tree bkg_tree data_file test_split w) =
   fst (get_dataset R root2array conv sig_tree bkg_tree data_file test_split w')"
proof (cases "0 \<le> test_split \<and> test_split \<le> rd (3 / 10)")
  case True
  then have range: "0 \<le> test_split" "test_split \<le> rd (3 / 10)" by simp_all
  show ?thesis
    unfolding get_dataset_in_range [OF range, of R root2array conv sig_tree bkg_tree data_file w]
      get_dataset_in_range [OF range, of R root2array conv sig_tree bkg_tree data_file w'] ..
next
  case False
  then show ?thesis by (simp add: get_dataset_def)
qed

text \<open>
  C6 at a failing input: with \<open>test_split = 0.2\<close> the signal tree of four entries has
  test size \<open>0\<close> and the background tree of five has test size \<open>1\<close>; the claim puts four
  signal entries into the train set, and the call raises AssertionError. The same holds
  for the double nearest to \<open>1/5\<close>.
\<close>

theorem get_dataset_small_tree_fails:
  "test_size_of 4 (1 / 5) = 0 \<and> test_size_of 5 (1 / 5) = 1 \<and>
   get_dataset R0 file0 (\<lambda>x. x) ''sgn'' ''bkg'' ''data.root'' (1 / 5) w0 =
     (Inl AssertionError,
      \<lparr>np_random_state = 2, trees_read = [(''data.root'', ''sgn''), (''data.root'', ''bkg'')]\<rparr>) \<and>
   test_size_of 4 (rd (1 / 5)) = 0 \<and> test_size_of 5 (rd (1 / 5)) = 1 \<and>
   get_dataset R0 file0 (\<lambda>x. x) ''sgn'' ''bkg'' ''data.root'' (rd (1 / 5)) w0 =
     (Inl AssertionError,
      \<lparr>np_random_state = 2, trees_read = [(''data.root'', ''sgn''), (''data.root'', ''bkg'')]\<rparr>)"
  by (simp add: get_dataset_def R0_def file0_def w0_def split_tree_def assemble_def np_array_def
      np_concatenate_def slice_to_def slice_from_def Let_def doubles test_sizes_Suc test_sizes)

text \<open>
  When every tree has a test size of at least \<open>1\<close>, \<open>get_dataset\<close> returns; the test set
  holds as many examples as the two test sizes together, the train set the rest, and the
  two sets together hold every entry of both trees exactly once.
\<close>

theorem get_dataset_split:
  assumes ok: "rng_ok R" and range: "0 \<le> ts" "ts \<le> rd (3 / 10)"
    and A: "A = map conv (root2array data_file sig_tree)"
    and B: "B = map conv (root2array data_file bkg_tree)"
    and pos: "1 \<le> test_size_of (length A) ts" "1 \<le> test_size_of (length B) ts"
  shows "\<exists>Xtr Ytr Xte Yte.
     fst (get_dataset R root2array conv sig_tree bkg_tree data_file ts w) =
       Inr ((Xtr, Ytr), (Xte, Yte)) \<and>
     length Xte = nat (test_size_of (length A) ts) + nat (test_size_of (length B) ts) \<and>
     length Xtr = (length A - nat (test_size_of (length A) ts)) +
                  (length B - nat (test_size_of (length B) ts)) \<and>
     mset Xtr + mset Xte = mset A + mset B"
proof -
  define A' where "A' = fst (shuffle R (seed R 0) A)"
  define B' where "B' = fst (shuffle R (snd (shuffle R (seed R 0) A)) B)"
  define ta where "ta = test_size_of (length A) ts"
  define tb where "tb = test_size_of (length B) ts"
  define As where "As = slice_to A' (- ta)"
  define At where "At = slice_from A' (- ta)"
  define Bs where "Bs = slice_to B' (- tb)"
  define Bt where "Bt = slice_from B' (- tb)"
  define tl where "tl = tree_loop R ts (zip [0..<length [np_array A, np_array B]] [np_array A, np_array B])
                 \<lparr>X_train = [], Y_train = [], X_test = [], Y_test = []\<rparr> (seed R 0)"
  let ?s = "((As @ Bs, replicate (length As) 0 @ replicate (length Bs) 1),
             (At @ Bt, replicate (length At) 0 @ replicate (length Bt) 1))"
  have lA: "length A' = length A" unfolding A'_def by (rule rng_ok_shuffle_length [OF ok])
  have lB: "length B' = length B" unfolding B'_def by (rule rng_ok_shuffle_length [OF ok])
  have ta: "0 \<le> ta" "ta \<le> int (length A')" "ta \<noteq> 0"
    using test_size_bounds [OF range, of "length A"] pos(1) unfolding ta_def lA by simp_all
  have tb: "0 \<le> tb" "tb \<le> int (length B')" "tb \<noteq> 0"
    using test_size_bounds [OF range, of "length B"] pos(2) unfolding tb_def lB by simp_all
  from ta lA have Ane: "A \<noteq> []" by auto
  from tb lB have Bne: "B \<noteq> []" by auto
  have "assemble (fst tl) =
     (if (A = []) \<noteq> (B = []) then Inl ValueError
      else if A \<noteq> [] \<and> (ta = 0 \<or> tb = 0) then Inl AssertionError
      else Inr ?s)"
    unfolding tl_def As_def At_def Bs_def Bt_def A'_def B'_def ta_def tb_def
    by (rule assemble_two [OF ok range])
  with Ane Bne ta(3) tb(3) have asm: "assemble (fst tl) = Inr ?s" by simp
  have g: "fst (get_dataset R root2array conv sig_tree bkg_tree data_file ts w) =
     (case assemble (fst tl) of Inl e \<Rightarrow> Inl e | Inr s \<Rightarrow> fst (shuffle_splits R s (snd tl)))"
    unfolding get_dataset_in_range [OF range] Let_def A [symmetric] B [symmetric] tl_def ..
  from shuffle_splits_ok [OF ok, of "replicate (length As) 0 @ replicate (length Bs) 1" "As @ Bs"
      "replicate (length At) 0 @ replicate (length Bt) 1" "At @ Bt" "snd tl"]
  obtain Xtr Ytr Xte Yte g' where
    sh: "shuffle_splits R ?s (snd tl) = (Inr ((Xtr, Ytr), (Xte, Yte)), g')" and
    len: "length Ytr = length Xtr" "length Yte = length Xte" and
    tr: "mset (zip Xtr Ytr) = mset (zip (As @ Bs) (replicate (length As) 0 @ replicate (length Bs) 1))" and
    te: "mset (zip Xte Yte) = mset (zip (At @ Bt) (replicate (length At) 0 @ replicate (length Bt) 1))"
    by auto
  have res: "fst (get_dataset R root2array conv sig_tree bkg_tree data_file ts w) =
       Inr ((Xtr, Ytr), (Xte, Yte))"
    using g asm sh by simp
  have "image_mset fst (mset (zip Xtr Ytr)) = mset Xtr"
    using len(1) by (metis map_fst_zip mset_map)
  with tr have mtr: "mset Xtr = mset As + mset Bs"
    by (simp add: zip_labelled image_mset_union comp_def flip: mset_map)
  have "image_mset fst (mset (zip Xte Yte)) = mset Xte"
    using len(2) by (metis map_fst_zip mset_map)
  with te have mte: "mset Xte = mset At + mset Bt"
    by (simp add: zip_labelled image_mset_union comp_def flip: mset_map)
  have mA: "mset As + mset At = mset A"
    using slice_append [of A' "- ta"] rng_ok_shuffle [OF ok, of "seed R 0" A]
    unfolding As_def At_def A'_def by (metis mset_append)
  have mB: "mset Bs + mset Bt = mset B"
    using slice_append [of B' "- tb"] rng_ok_shuffle [OF ok, of "snd (shuffle R (seed R 0) A)" B]
    unfolding Bs_def Bt_def B'_def by (metis mset_append)
  have all: "mset Xtr + mset Xte = mset A + mset B"
    unfolding mtr mte mA [symmetric] mB [symmetric] by (simp add: ac_simps)
  have "length Xte = length At + length Bt"
    using mte by (metis length_append mset_append size_mset)
  then have lte: "length Xte = nat ta + nat tb"
    unfolding At_def Bt_def using slice_lengths(2) [OF ta(1,2)] slice_lengths(2) [OF tb(1,2)] ta(3) tb(3)
    by simp
  have "length Xtr = length As + length Bs"
    using mtr by (metis length_append mset_append size_mset)
  then have ltr: "length Xtr = (length A - nat ta) + (length B - nat tb)"
    unfolding As_def Bs_def using slice_lengths(1) [OF ta(1,2)] slice_lengths(1) [OF tb(1,2)] ta(3) tb(3) lA lB
    by simp
  from res lte ltr all show ?thesis unfolding ta_def tb_def by blast
qed

text \<open>On the file of four and five entries with \<open>test_split = 0.25\<close>.\<close>

theorem get_dataset_split_witness:
  "rng_ok R0 \<and> (0::real) \<le> 1 / 4 \<and> (1 / 4 :: real) \<le> rd (3 / 10) \<and>
   1 \<le> test_size_of (length [''s1'', ''s2'', ''s3'', ''s4'']) (1 / 4) \<and>
   1 \<le> test_size_of (length [''b1'', ''b2'', ''b3'', ''b4'', ''b5'']) (1 / 4) \<and>
   (\<exists>Xtr Ytr Xte Yte.
      fst (get_dataset R0 file0 (\<lambda>x. x) ''sgn'' ''bkg'' ''data.root'' (1 / 4) w0) =
        Inr ((Xtr, Ytr), (Xte, Yte)) \<and>
      length Xte = 2 \<and> length Xtr = 7 \<and>
      mset Xtr + mset Xte =
        mset [''s1'', ''s2'', ''s3'', ''s4''] + mset [''b1'', ''b2'', ''b3'', ''b4'', ''b5''])"
proof -
  let ?A = "[''s1'', ''s2'', ''s3'', ''s4'']"
  let ?B = "[''b1'', ''b2'', ''b3'', ''b4'', ''b5'']"
  have r: "(0::real) \<le> 1 / 4" "(1 / 4 :: real) \<le> rd (3 / 10)" by (simp_all add: doubles)
  have A: "?A = map (\<lambda>x. x) (file0 ''data.root'' ''sgn'')" by (simp add: file0_def)
  have B: "?B = map (\<lambda>x. x) (file0 ''data.root'' ''bkg'')" by (simp add: file0_def)
  have ta: "test_size_of (length ?A) (1 / 4) = 1" by (simp add: test_sizes_Suc)
  have tb: "test_size_of (length ?B) (1 / 4) = 1" by (simp add: test_sizes_Suc)
  have p: "1 \<le> test_size_of (length ?A) (1 / 4)" "1 \<le> test_size_of (length ?B) (1 / 4)"
    using ta tb by simp_all
  from get_dataset_split [where R = R0 and root2array = file0 and conv = "\<lambda>x. x"
      and sig_tree = "''sgn''" and bkg_tree = "''bkg''" and data_file = "''data.root''"
      and w = w0, OF R0_ok r A B p]
  obtain Xtr Ytr Xte Yte where
    g: "fst (get_dataset R0 file0 (\<lambda>x. x) ''sgn'' ''bkg'' ''data.root'' (1 / 4) w0) =
          Inr ((Xtr, Ytr), (Xte, Yte))" and
    lte: "length Xte = nat (test_size_of (length ?A) (1 / 4)) + nat (test_size_of (length ?B) (1 / 4))" and
    ltr: "length Xtr = (length ?A - nat (test_size_of (length ?A) (1 / 4))) +
                       (length ?B - nat (test_size_of (length ?B) (1 / 4)))" and
    m: "mset Xtr + mset Xte = mset ?A + mset ?B"
    by blast
  from lte have lte': "length Xte = 2" unfolding ta tb by simp
  from ltr have ltr': "length Xtr = 7" unfolding ta tb by simp
  from g lte' ltr' m have "\<exists>Xtr Ytr Xte Yte.
      fst (get_dataset R0 file0 (\<lambda>x. x) ''sgn'' ''bkg'' ''data.root'' (1 / 4) w0) =
        Inr ((Xtr, Ytr), (Xte, Yte)) \<and>
      length Xte = 2 \<and> length Xtr = 7 \<and> mset Xtr + mset Xte = mset ?A + mset ?B"
    by (rule_tac x = Xtr in exI, rule_tac x = Ytr in exI, rule_tac x = Xte in exI,
        rule_tac x = Yte in exI) simp
  with R0_ok r p show ?thesis by (intro conjI)
qed

text \<open>
  The first assertion: \<open>get_dataset\<close> raises AssertionError with nothing read, the
  generator untouched and nothing returned, exactly when the test
  \<^verbatim>\<open>0 <= test_split <= 0.3\<close> fails.
\<close>

theorem get_dataset_first_assertion:
  "(get_dataset R root2array conv sig_tree bkg_tree data_file test_split w = (Inl AssertionError, w)) =
   (test_split < 0 \<or> rd (3 / 10) < test_split)"
proof (cases "0 \<le> test_split \<and> test_split \<le> rd (3 / 10)")
  case False
  then show ?thesis by (auto simp: get_dataset_def)
next
  case True
  have "trees_read (snd (get_dataset R root2array conv sig_tree bkg_tree data_file test_split w)) =
     trees_read w @ [(data_file, sig_tree), (data_file, bkg_tree)]"
    using True by (simp add: get_dataset_def Let_def split: prod.splits sum.splits)
  then have "snd (get_dataset R root2array conv sig_tree bkg_tree data_file test_split w) \<noteq> w"
    by auto
  with True show ?thesis by auto
qed

text \<open>
  C8 at a failing input: \<open>test_split = 0\<close> passes the first assertion, both trees are
  read, and the call on the file of four and five entries raises AssertionError at the
  assertion on the lengths of \<open>Y_train\<close> and \<open>X_train\<close>, where the claim has no
  AssertionError for a \<open>test_split\<close> between \<open>0\<close> and \<open>0.3\<close>.
\<close>

theorem get_dataset_accepted_split_raises:
  "(0::real) \<le> 0 \<and> (0::real) \<le> rd (3 / 10) \<and>
   test_size_of 4 0 = 0 \<and> test_size_of 5 0 = 0 \<and>
   get_dataset R0 file0 (\<lambda>x. x) ''sgn'' ''bkg'' ''data.root'' 0 w0 =
     (Inl AssertionError,
      \<lparr>np_random_state = 2, trees_read = [(''data.root'', ''sgn''), (''data.root'', ''bkg'')]\<rparr>)"
  by (simp add: get_dataset_def R0_def file0_def w0_def split_tree_def assemble_def np_array_def
      np_concatenate_def slice_to_def slice_from_def Let_def doubles test_sizes_Suc test_sizes)

text \<open>The body of the loop for a tree of test size \<open>0\<close>.\<close>

lemma split_tree_zero:
  assumes ok: "rng_ok R" and zero: "test_size_of (length (rows data)) ts = 0"
  shows "split_tree R ts label data acc g =
     (\<lparr>X_train = X_train acc @ [data\<lparr>rows := []\<rparr>],
       Y_train = Y_train acc @ [replicate (length (rows data)) label],
       X_test = X_test acc @ [data\<lparr>rows := fst (shuffle R g (rows data))\<rparr>],
       Y_test = Y_test acc @ [[]]\<rparr>, snd (shuffle R g (rows data)))"
  using zero rng_ok_shuffle_length [OF ok, of g "rows data"]
  by (simp add: split_tree_def case_prod_beta Let_def slice_to_def slice_from_def)

text \<open>
  Whenever both trees have entries and one of them has test size \<open>0\<close>, the assertion on
  the lengths fails.
\<close>

lemma zero_test_size_raises:
  assumes ok: "rng_ok R" and range: "0 \<le> ts" "ts \<le> rd (3 / 10)"
    and A: "A = map conv (root2array data_file sig_tree)"
    and B: "B = map conv (root2array data_file bkg_tree)"
    and ne: "A \<noteq> []" "B \<noteq> []"
    and zero: "test_size_of (length A) ts = 0 \<or> test_size_of (length B) ts = 0"
  shows "fst (get_dataset R root2array conv sig_tree bkg_tree data_file ts w) = Inl AssertionError"
  using ne zero unfolding get_dataset_in_range [OF range] Let_def A [symmetric] B [symmetric]
    assemble_two [OF ok range]
  by simp

text \<open>
  C9 at a failing input: with \<open>test_split = 0.1\<close> the trees of four and five entries both
  have test size \<open>0\<close>. The loop body makes the slices the claim describes (no train row,
  every row a test row) but four train labels and no test label, and \<open>get_dataset\<close>
  returns no split: it raises AssertionError, so that no entry is assigned to a test
  set.
\<close>

theorem get_dataset_zero_test_size:
  "test_size_of 4 (rd (1 / 10)) = 0 \<and> test_size_of 5 (rd (1 / 10)) = 0 \<and>
   fst (split_tree R0 (rd (1 / 10)) 0 (np_array [''s1'', ''s2'', ''s3'', ''s4''])
          \<lparr>X_train = [], Y_train = [], X_test = [], Y_test = []\<rparr> 0) =
     \<lparr>X_train = [\<lparr>ndim = 2, rows = []\<rparr>],
       Y_train = [[0, 0, 0, 0]],
       X_test = [\<lparr>ndim = 2, rows = [''s4'', ''s3'', ''s2'', ''s1'']\<rparr>],
       Y_test = [[]]\<rparr> \<and>
   get_dataset R0 file0 (\<lambda>x. x) ''sgn'' ''bkg'' ''data.root'' (rd (1 / 10)) w0 =
     (Inl AssertionError,
      \<lparr>np_random_state = 2, trees_read = [(''data.root'', ''sgn''), (''data.root'', ''bkg'')]\<rparr>)"
  by (simp add: get_dataset_def R0_def file0_def w0_def split_tree_def assemble_def np_array_def
      np_concatenate_def slice_to_def slice_from_def Let_def doubles test_sizes_Suc test_sizes numeral_eq_Suc)

text \<open>
  C10. In the splits \<open>get_dataset\<close> returns, labels and examples have the same length, the
  pairs of example and label are, as a multiset, those of the arrays before the final
  shuffles, and they are the entries of the signal tree paired with \<open>0\<close> and the entries of
  the background tree paired with \<open>1\<close>, every entry of either tree in exactly one pair of
  one of the two splits.
\<close>

theorem get_dataset_label_pairing:
  assumes ok: "rng_ok R"
    and ret: "fst (get_dataset R root2array conv sig_tree bkg_tree data_file ts w) =
                Inr ((Xtr, Ytr), (Xte, Yte))"
    and A: "A = map conv (root2array data_file sig_tree)"
    and B: "B = map conv (root2array data_file bkg_tree)"
  shows "length Ytr = length Xtr \<and> length Yte = length Xte \<and>
     (\<exists>X0 Y0 X1 Y1.
        assemble (fst (tree_loop R ts
            (zip [0..<length [np_array A, np_array B]] [np_array A, np_array B])
            \<lparr>X_train = [], Y_train = [], X_test = [], Y_test = []\<rparr> (seed R 0))) =
          Inr ((X0, Y0), (X1, Y1)) \<and>
        mset (zip Xtr Ytr) = mset (zip X0 Y0) \<and> mset (zip Xte Yte) = mset (zip X1 Y1)) \<and>
     (\<exists>As At Bs Bt.
        mset As + mset At = mset A \<and> mset Bs + mset Bt = mset B \<and>
        mset (zip Xtr Ytr) = mset (map (\<lambda>x. (x, 0)) As) + mset (map (\<lambda>x. (x, 1)) Bs) \<and>
        mset (zip Xte Yte) = mset (map (\<lambda>x. (x, 0)) At) + mset (map (\<lambda>x. (x, 1)) Bt))"
proof -
  have range: "0 \<le> ts" "ts \<le> rd (3 / 10)"
    using ret by (auto simp: get_dataset_def split: if_splits)
  define A' where "A' = fst (shuffle R (seed R 0) A)"
  define B' where "B' = fst (shuffle R (snd (shuffle R (seed R 0) A)) B)"
  define ta where "ta = test_size_of (length A) ts"
  define tb where "tb = test_size_of (length B) ts"
  define As where "As = slice_to A' (- ta)"
  define At where "At = slice_from A' (- ta)"
  define Bs where "Bs = slice_to B' (- tb)"
  define Bt where "Bt = slice_from B' (- tb)"
  define tl where "tl = tree_loop R ts (zip [0..<length [np_array A, np_array B]] [np_array A, np_array B])
                 \<lparr>X_train = [], Y_train = [], X_test = [], Y_test = []\<rparr> (seed R 0)"
  let ?s = "((As @ Bs, replicate (length As) 0 @ replicate (length Bs) 1),
             (At @ Bt, replicate (length At) 0 @ replicate (length Bt) 1))"
  have asm: "assemble (fst tl) =
     (if (A = []) \<noteq> (B = []) then Inl ValueError
      else if A \<noteq> [] \<and> (ta = 0 \<or> tb = 0) then Inl AssertionError
      else Inr ?s)"
    unfolding tl_def As_def At_def Bs_def Bt_def A'_def B'_def ta_def tb_def
    by (rule assemble_two [OF ok range])
  have g: "fst (get_dataset R root2array conv sig_tree bkg_tree data_file ts w) =
     (case assemble (fst tl) of Inl e \<Rightarrow> Inl e | Inr s \<Rightarrow> fst (shuffle_splits R s (snd tl)))"
    unfolding get_dataset_in_range [OF range] Let_def A [symmetric] B [symmetric] tl_def ..
  from ret g asm have s: "assemble (fst tl) = Inr ?s"
    by (auto split: if_splits)
  with ret g have sh: "fst (shuffle_splits R ?s (snd tl)) = Inr ((Xtr, Ytr), (Xte, Yte))"
    by simp
  from shuffle_splits_ok [OF ok, of "replicate (length As) 0 @ replicate (length Bs) 1" "As @ Bs"
      "replicate (length At) 0 @ replicate (length Bt) 1" "At @ Bt" "snd tl"] sh
  have len: "length Ytr = length Xtr" "length Yte = length Xte"
    and tr: "mset (zip Xtr Ytr) = mset (zip (As @ Bs) (replicate (length As) 0 @ replicate (length Bs) 1))"
    and te: "mset (zip Xte Yte) = mset (zip (At @ Bt) (replicate (length At) 0 @ replicate (length Bt) 1))"
    by auto
  have "mset As + mset At = mset A"
    using slice_append [of A' "- ta"] rng_ok_shuffle [OF ok, of "seed R 0" A]
    unfolding As_def At_def A'_def by (metis mset_append)
  moreover have "mset Bs + mset Bt = mset B"
    using slice_append [of B' "- tb"] rng_ok_shuffle [OF ok, of "snd (shuffle R (seed R 0) A)" B]
    unfolding Bs_def Bt_def B'_def by (metis mset_append)
  moreover note tr [unfolded zip_labelled] te [unfolded zip_labelled]
  ultimately have parts: "\<exists>As At Bs Bt.
        mset As + mset At = mset A \<and> mset Bs + mset Bt = mset B \<and>
        mset (zip Xtr Ytr) = mset (map (\<lambda>x. (x, 0)) As) + mset (map (\<lambda>x. (x, 1)) Bs) \<and>
        mset (zip Xte Yte) = mset (map (\<lambda>x. (x, 0)) At) + mset (map (\<lambda>x. (x, 1)) Bt)"
    by (rule_tac x = As in exI, rule_tac x = At in exI, rule_tac x = Bs in exI,
        rule_tac x = Bt in exI) simp
  from s tr te have pre: "\<exists>X0 Y0 X1 Y1.
        assemble (fst (tree_loop R ts
            (zip [0..<length [np_array A, np_array B]] [np_array A, np_array B])
            \<lparr>X_train = [], Y_train = [], X_test = [], Y_test = []\<rparr> (seed R 0))) =
          Inr ((X0, Y0), (X1, Y1)) \<and>
        mset (zip Xtr Ytr) = mset (zip X0 Y0) \<and> mset (zip Xte Yte) = mset (zip X1 Y1)"
    unfolding tl_def by blast
  from len pre parts show ?thesis by (intro conjI)
qed

text \<open>With \<open>test_split = 0.25\<close> both test sizes are \<open>1\<close> and the call returns.\<close>

theorem get_dataset_label_pairing_witness:
  "rng_ok R0 \<and>
   fst (get_dataset R0 file0 (\<lambda>x. x) ''sgn'' ''bkg'' ''data.root'' (1 / 4) w0) =
     Inr (([''b2'', ''b3'', ''b4'', ''b5'', ''s2'', ''s3'', ''s4''], [1, 1, 1, 1, 0, 0, 0]),
          ([''b1'', ''s1''], [1, 0])) \<and>
   (\<exists>As At Bs Bt.
      mset As + mset At = mset [''s1'', ''s2'', ''s3'', ''s4''] \<and>
      mset Bs + mset Bt = mset [''b1'', ''b2'', ''b3'', ''b4'', ''b5''] \<and>
      mset (zip [''b2'', ''b3'', ''b4'', ''b5'', ''s2'', ''s3'', ''s4''] [1, 1, 1, 1, 0, 0, 0 :: nat]) =
        mset (map (\<lambda>x. (x, 0)) As) + mset (map (\<lambda>x. (x, 1)) Bs) \<and>
      mset (zip [''b1'', ''s1''] [1, 0 :: nat]) =
        mset (map (\<lambda>x. (x, 0)) At) + mset (map (\<lambda>x. (x, 1)) Bt))"
proof -
  have ret: "fst (get_dataset R0 file0 (\<lambda>x. x) ''sgn'' ''bkg'' ''data.root'' (1 / 4) w0) =
     Inr (([''b2'', ''b3'', ''b4'', ''b5'', ''s2'', ''s3'', ''s4''], [1, 1, 1, 1, 0, 0, 0]),
          ([''b1'', ''s1''], [1, 0]))"
    by (simp add: get_dataset_def R0_def file0_def w0_def split_tree_def assemble_def np_array_def
      np_concatenate_def slice_to_def slice_from_def shuffle_splits_def np_take_def
      Let_def numeral_eq_Suc upt_rec doubles test_sizes_Suc)
  have A: "[''s1'', ''s2'', ''s3'', ''s4''] = map (\<lambda>x. x) (file0 ''data.root'' ''sgn'')"
    by (simp add: file0_def)
  have B: "[''b1'', ''b2'', ''b3'', ''b4'', ''b5''] = map (\<lambda>x. x) (file0 ''data.root'' ''bkg'')"
    by (simp add: file0_def)
  from get_dataset_label_pairing [OF R0_ok ret A B] R0_ok ret show ?thesis by simp
qed

end
